theory Spec2Isabelle
  imports Complex_Main "HOL-Library.Log_Nat"
begin

section \<open>JavaScript values\<close>

text \<open>
  The service keeps plain JavaScript objects in four module-level arrays. A number is an
  IEEE double: the special values are modelled exactly (\<open>0 / 0\<close> is \<open>NaN\<close>, a non-zero
  number divided by zero is an infinity), a finite number is a rational and arithmetic on
  finite numbers is exact (rounding to 53 bits and overflow are not modelled, and the
  negative zero is identified with zero).
\<close>

datatype jsnum = NaN | PosInfinity | NegInfinity | Finite rat

text \<open>
  An object is a map from property names to values; the order of the properties
  plays no part in the service. A property holding \<open>undefined\<close> is different from a
  missing property: the spread copies the first and not the second.
\<close>

datatype jsval =
    Undefined
  | Null
  | Bool bool
  | Num jsnum
  | Str string
  | Obj "string \<Rightarrow> jsval option"

type_synonym object = "string \<rightharpoonup> jsval"

text \<open>The property read \<open>o.k\<close>: a missing property reads as \<open>undefined\<close>.\<close>

definition field :: "object \<Rightarrow> string \<Rightarrow> jsval" where
  "field ob k = (case ob k of None \<Rightarrow> Undefined | Some v \<Rightarrow> v)"

text \<open>
  The strict equality \<open>a === b\<close>. \<open>NaN\<close> is not equal to itself. Two objects are equal
  only when they are one and the same object; values are held here without identity, and
  two object values met in a comparison are taken to be different objects.
\<close>

fun strict_eq :: "jsval \<Rightarrow> jsval \<Rightarrow> bool" where
  "strict_eq Undefined Undefined = True"
| "strict_eq Null Null = True"
| "strict_eq (Bool a) (Bool b) = (a = b)"
| "strict_eq (Num a) (Num b) = (a \<noteq> NaN \<and> a = b)"
| "strict_eq (Str a) (Str b) = (a = b)"
| "strict_eq _ _ = False"

section \<open>Arrays\<close>

text \<open>\<open>Array.prototype.findIndex\<close>: the index of the first element satisfying the
  predicate, \<open>-1\<close> when there is none.\<close>

fun findIndex :: "('a \<Rightarrow> bool) \<Rightarrow> 'a list \<Rightarrow> int" where
  "findIndex P [] = - 1"
| "findIndex P (x # xs) =
     (if P x then 0
      else (let i = findIndex P xs in if i = - 1 then - 1 else i + 1))"

text \<open>\<open>Array.prototype.find\<close> is \<^const>\<open>List.find\<close>: the first element satisfying the
  predicate, \<open>None\<close> standing for \<open>undefined\<close>.\<close>

text \<open>\<open>xs.splice(start, count)\<close> for a start index inside the array: the elements
  from \<open>start\<close> to \<open>start + count - 1\<close> are removed.\<close>

definition splice_at :: "nat \<Rightarrow> nat \<Rightarrow> 'a list \<Rightarrow> 'a list" where
  "splice_at start count xs = take start xs @ drop (start + count) xs"

section \<open>The store and the CRUD operations\<close>

record store =
  customers :: "object list"
  contacts :: "object list"
  deals :: "object list"
  activities :: "object list"

text \<open>What is thrown: an \<open>Error\<close> with its message, or the \<open>TypeError\<close> of the engine (its
  message is the engine's).\<close>

datatype error = Error string | TypeError

text \<open>
  Every operation takes the store and returns its result with the store it leaves. What
  \<open>uuidv4()\<close> returns and the date the clock shows at each \<open>new Date()\<close> (as the
  string \<open>toISOString().split('T')[0]\<close> makes of it) are inputs of the operation. The
  simulated delay is left out.
\<close>

definition getCustomer :: "jsval \<Rightarrow> store \<Rightarrow> object option" where
  "getCustomer i s = List.find (\<lambda>customer. strict_eq (field customer ''id'') i) (customers s)"

definition createCustomer ::
  "string \<Rightarrow> string \<Rightarrow> string \<Rightarrow> object \<Rightarrow> store \<Rightarrow> object \<times> store" where
  "createCustomer uuid date1 date2 customerData s =
     (let newCustomer = ([''id'' \<mapsto> Str uuid] ++ customerData)
            (''status'' \<mapsto> Str ''active'',
             ''healthScore'' \<mapsto> Num (Finite 80),
             ''tier'' \<mapsto> Str ''startup'',
             ''createdAt'' \<mapsto> Str date1,
             ''updatedAt'' \<mapsto> Str date2)
      in (newCustomer, s\<lparr>customers := customers s @ [newCustomer]\<rparr>))"

definition updateCustomer ::
  "jsval \<Rightarrow> string \<Rightarrow> object \<Rightarrow> store \<Rightarrow> (error + object) \<times> store" where
  "updateCustomer i date customerData s =
     (let index = findIndex (\<lambda>customer. strict_eq (field customer ''id'') i) (customers s)
      in if index = - 1 then (Inl (Error ''Customer not found''), s)
         else
           (let updated = ((customers s ! nat index) ++ customerData)(''updatedAt'' \<mapsto> Str date);
                s' = s\<lparr>customers := (customers s)[nat index := updated]\<rparr>
            in (Inr (customers s' ! nat index), s')))"

definition deleteCustomer :: "jsval \<Rightarrow> store \<Rightarrow> (error + object) \<times> store" where
  "deleteCustomer i s =
     (let index = findIndex (\<lambda>customer. strict_eq (field customer ''id'') i) (customers s)
      in if index = - 1 then (Inl (Error ''Customer not found''), s)
         else (Inr [''success'' \<mapsto> Bool True],
               s\<lparr>customers := splice_at (nat index) 1 (customers s)\<rparr>))"

definition getContact :: "jsval \<Rightarrow> store \<Rightarrow> object option" where
  "getContact i s = List.find (\<lambda>contact. strict_eq (field contact ''id'') i) (contacts s)"

definition createContact ::
  "string \<Rightarrow> string \<Rightarrow> string \<Rightarrow> object \<Rightarrow> store \<Rightarrow> object \<times> store" where
  "createContact uuid date1 date2 contactData s =
     (let newContact = ([''id'' \<mapsto> Str uuid] ++ contactData)
            (''status'' \<mapsto> Str ''active'',
             ''createdAt'' \<mapsto> Str date1,
             ''updatedAt'' \<mapsto> Str date2)
      in (newContact, s\<lparr>contacts := contacts s @ [newContact]\<rparr>))"

definition updateContact ::
  "jsval \<Rightarrow> string \<Rightarrow> object \<Rightarrow> store \<Rightarrow> (error + object) \<times> store" where
  "updateContact i date contactData s =
     (let index = findIndex (\<lambda>contact. strict_eq (field contact ''id'') i) (contacts s)
      in if index = - 1 then (Inl (Error ''Contact not found''), s)
         else
           (let updated = ((contacts s ! nat index) ++ contactData)(''updatedAt'' \<mapsto> Str date);
                s' = s\<lparr>contacts := (contacts s)[nat index := updated]\<rparr>
            in (Inr (contacts s' ! nat index), s')))"

definition deleteContact :: "jsval \<Rightarrow> store \<Rightarrow> (error + object) \<times> store" where
  "deleteContact i s =
     (let index = findIndex (\<lambda>contact. strict_eq (field contact ''id'') i) (contacts s)
      in if index = - 1 then (Inl (Error ''Contact not found''), s)
         else (Inr [''success'' \<mapsto> Bool True],
               s\<lparr>contacts := splice_at (nat index) 1 (contacts s)\<rparr>))"

definition getDeal :: "jsval \<Rightarrow> store \<Rightarrow> object option" where
  "getDeal i s = List.find (\<lambda>deal. strict_eq (field deal ''id'') i) (deals s)"

definition createDeal ::
  "string \<Rightarrow> string \<Rightarrow> string \<Rightarrow> object \<Rightarrow> store \<Rightarrow> object \<times> store" where
  "createDeal uuid date1 date2 dealData s =
     (let newDeal = ([''id'' \<mapsto> Str uuid] ++ dealData)
            (''status'' \<mapsto> Str ''active'',
             ''createdAt'' \<mapsto> Str date1,
             ''updatedAt'' \<mapsto> Str date2)
      in (newDeal, s\<lparr>deals := deals s @ [newDeal]\<rparr>))"

definition updateDeal ::
  "jsval \<Rightarrow> string \<Rightarrow> object \<Rightarrow> store \<Rightarrow> (error + object) \<times> store" where
  "updateDeal i date dealData s =
     (let index = findIndex (\<lambda>deal. strict_eq (field deal ''id'') i) (deals s)
      in if index = - 1 then (Inl (Error ''Deal not found''), s)
         else
           (let updated = ((deals s ! nat index) ++ dealData)(''updatedAt'' \<mapsto> Str date);
                s' = s\<lparr>deals := (deals s)[nat index := updated]\<rparr>
            in (Inr (deals s' ! nat index), s')))"

definition deleteDeal :: "jsval \<Rightarrow> store \<Rightarrow> (error + object) \<times> store" where
  "deleteDeal i s =
     (let index = findIndex (\<lambda>deal. strict_eq (field deal ''id'') i) (deals s)
      in if index = - 1 then (Inl (Error ''Deal not found''), s)
         else (Inr [''success'' \<mapsto> Bool True],
               s\<lparr>deals := splice_at (nat index) 1 (deals s)\<rparr>))"

section \<open>Ids of a store\<close>

text \<open>The ids of the records of an array, in the order of the array.\<close>

definition ids :: "object list \<Rightarrow> jsval list" where
  "ids xs = map (\<lambda>r. field r ''id'') xs"

text \<open>Ids are unique within each of the three arrays the service writes.\<close>

definition ids_unique :: "store \<Rightarrow> bool" where
  "ids_unique s \<longleftrightarrow>
     distinct (ids (customers s)) \<and> distinct (ids (contacts s)) \<and> distinct (ids (deals s))"

text \<open>Some record of the array has an id strictly equal to the given one.\<close>

definition present :: "jsval \<Rightarrow> object list \<Rightarrow> bool" where
  "present i xs = list_ex (\<lambda>r. strict_eq (field r ''id'') i) xs"

section \<open>Arithmetic\<close>

text \<open>
  A number is a double. The result of an operation on finite numbers is the exact result
  rounded to the nearest double, a tie going to the even significand, and to an infinity
  when it is out of range. Counted in units of \<open>2\<^sup>-\<^sup>1\<^sup>0\<^sup>7\<^sup>4\<close> (the smallest positive
  double) a double is an integer of at most 53 bits times a power of two.
\<close>

definition min_exponent :: nat where
  "min_exponent = 1074"

definition max_exponent :: nat where
  "max_exponent = 1024"

definition round_half_even :: "rat \<Rightarrow> int" where
  "round_half_even y =
     (let f = \<lfloor>y\<rfloor>; r = y - of_int f
      in if r < 1 / 2 then f else if 1 / 2 < r then f + 1 else if even f then f else f + 1)"

text \<open>Rounding a non-negative number of units to 53 significant bits.\<close>

definition round_units :: "rat \<Rightarrow> int" where
  "round_units y = (let j = nat (bitlen \<lfloor>y\<rfloor> - 53) in round_half_even (y / 2 ^ j) * 2 ^ j)"

definition to_double :: "rat \<Rightarrow> jsnum" where
  "to_double x =
     (let mag = of_int (round_units (\<bar>x\<bar> * 2 ^ min_exponent)) / 2 ^ min_exponent
      in if 2 ^ max_exponent \<le> mag then (if x < 0 then NegInfinity else PosInfinity)
         else Finite (if x < 0 then - mag else mag))"

text \<open>What rounding leaves of a finite number is a whole number of units.\<close>

definition on_grid :: "jsnum \<Rightarrow> bool" where
  "on_grid n =
     (case n of
        Finite q \<Rightarrow> of_int \<lfloor>q * 2 ^ min_exponent\<rfloor> = q * 2 ^ min_exponent
      | _ \<Rightarrow> True)"

fun js_neg :: "jsnum \<Rightarrow> jsnum" where
  "js_neg NaN = NaN"
| "js_neg PosInfinity = NegInfinity"
| "js_neg NegInfinity = PosInfinity"
| "js_neg (Finite a) = Finite (- a)"

fun js_add :: "jsnum \<Rightarrow> jsnum \<Rightarrow> jsnum" where
  "js_add (Finite a) (Finite b) = to_double (a + b)"
| "js_add NaN _ = NaN"
| "js_add _ NaN = NaN"
| "js_add PosInfinity NegInfinity = NaN"
| "js_add NegInfinity PosInfinity = NaN"
| "js_add PosInfinity _ = PosInfinity"
| "js_add _ PosInfinity = PosInfinity"
| "js_add NegInfinity _ = NegInfinity"
| "js_add _ NegInfinity = NegInfinity"

definition js_sub :: "jsnum \<Rightarrow> jsnum \<Rightarrow> jsnum" where
  "js_sub a b = js_add a (js_neg b)"

text \<open>The sign of a number that is not \<open>NaN\<close>: \<open>-1\<close>, \<open>0\<close> or \<open>1\<close>.\<close>

fun js_sign :: "jsnum \<Rightarrow> int" where
  "js_sign NaN = 0"
| "js_sign PosInfinity = 1"
| "js_sign NegInfinity = - 1"
| "js_sign (Finite a) = (if a < 0 then - 1 else if a = 0 then 0 else 1)"

fun js_mul :: "jsnum \<Rightarrow> jsnum \<Rightarrow> jsnum" where
  "js_mul (Finite a) (Finite b) = to_double (a * b)"
| "js_mul NaN _ = NaN"
| "js_mul _ NaN = NaN"
| "js_mul a b =
     (if js_sign a * js_sign b = 0 then NaN
      else if js_sign a * js_sign b > 0 then PosInfinity else NegInfinity)"

text \<open>Division: \<open>0 / 0\<close> and \<open>\<infinity> / \<infinity>\<close> are \<open>NaN\<close>; a non-zero number divided by
  zero is the infinity of its sign (the zero of a count is the positive zero).\<close>

fun js_div :: "jsnum \<Rightarrow> jsnum \<Rightarrow> jsnum" where
  "js_div NaN _ = NaN"
| "js_div _ NaN = NaN"
| "js_div (Finite a) (Finite b) =
     (if b \<noteq> 0 then to_double (a / b)
      else if a = 0 then NaN
      else if a > 0 then PosInfinity else NegInfinity)"
| "js_div (Finite a) _ = Finite 0"
| "js_div a (Finite b) =
     (if js_sign a * (if b < 0 then - 1 else 1) > 0 then PosInfinity else NegInfinity)"
| "js_div _ _ = NaN"

text \<open>\<open>a > b\<close> and \<open>a >= b\<close> on numbers: false when either is \<open>NaN\<close>.\<close>

fun js_gt :: "jsnum \<Rightarrow> jsnum \<Rightarrow> bool" where
  "js_gt NaN _ = False"
| "js_gt _ NaN = False"
| "js_gt (Finite a) (Finite b) = (a > b)"
| "js_gt PosInfinity PosInfinity = False"
| "js_gt PosInfinity _ = True"
| "js_gt NegInfinity _ = False"
| "js_gt _ NegInfinity = True"
| "js_gt _ PosInfinity = False"

fun js_ge :: "jsnum \<Rightarrow> jsnum \<Rightarrow> bool" where
  "js_ge NaN _ = False"
| "js_ge _ NaN = False"
| "js_ge a b = (a = b \<or> js_gt a b)"

text \<open>\<open>Math.round\<close>: the nearest integer, a half rounded up; \<open>NaN\<close> and the infinities
  are returned as they are. The nearest integer of a double is a double.\<close>

fun Math_round :: "jsnum \<Rightarrow> jsnum" where
  "Math_round (Finite a) = Finite (of_int \<lfloor>a + 1 / 2\<rfloor>)"
| "Math_round a = a"

text \<open>The length of an array as a number.\<close>

definition num :: "nat \<Rightarrow> jsnum" where
  "num n = Finite (of_nat n)"

section \<open>Conversions and the operators on values\<close>

text \<open>
  How the engine writes a number as a string (\<open>Number::toString\<close>) and which numeric
  value it reads from a string (the mathematical value of \<open>StringToNumber\<close>, \<open>NaN\<close> for a
  string that is no numeric literal) are not part of the service. They are taken as they
  come, in a record, and nothing is assumed about them.
\<close>

record engine =
  number_to_string :: "jsnum \<Rightarrow> string"
  numeric_value :: "string \<Rightarrow> jsnum"

text \<open>Truthiness, and \<open>a || b\<close>.\<close>

fun truthy :: "jsval \<Rightarrow> bool" where
  "truthy Undefined = False"
| "truthy Null = False"
| "truthy (Bool b) = b"
| "truthy (Num n) = (n \<noteq> NaN \<and> n \<noteq> Finite 0)"
| "truthy (Str s) = (s \<noteq> [])"
| "truthy (Obj _) = True"

definition js_or :: "jsval \<Rightarrow> jsval \<Rightarrow> jsval" where
  "js_or a b = (if truthy a then a else b)"

text \<open>
  \<open>ToPrimitive\<close>. The objects here are plain objects holding data. \<open>valueOf\<close> of
  \<open>Object.prototype\<close> returns the object itself, so it is \<open>toString\<close> that decides: the
  inherited one gives \<open>[object Object]\<close>; an own property \<open>toString\<close> hides it and, holding
  data, cannot be called, so the conversion throws a \<open>TypeError\<close>.
\<close>

fun to_primitive :: "jsval \<Rightarrow> error + jsval" where
  "to_primitive (Obj ob) =
     (if ob ''toString'' = None then Inr (Str ''[object Object]'') else Inl TypeError)"
| "to_primitive v = Inr v"

fun is_string :: "jsval \<Rightarrow> bool" where
  "is_string (Str _) = True"
| "is_string _ = False"

text \<open>\<open>ToString\<close> and \<open>ToNumber\<close> of a primitive value (an object is converted by
  \<open>ToPrimitive\<close> first). A number read from a string is rounded to a double.\<close>

fun to_string :: "engine \<Rightarrow> jsval \<Rightarrow> string" where
  "to_string eng Undefined = ''undefined''"
| "to_string eng Null = ''null''"
| "to_string eng (Bool b) = (if b then ''true'' else ''false'')"
| "to_string eng (Num n) = number_to_string eng n"
| "to_string eng (Str s) = s"
| "to_string eng (Obj _) = ''[object Object]''"

fun round_number :: "jsnum \<Rightarrow> jsnum" where
  "round_number (Finite a) = to_double a"
| "round_number a = a"

fun to_number :: "engine \<Rightarrow> jsval \<Rightarrow> jsnum" where
  "to_number eng Undefined = NaN"
| "to_number eng Null = Finite 0"
| "to_number eng (Bool b) = Finite (if b then 1 else 0)"
| "to_number eng (Num n) = n"
| "to_number eng (Str s) = round_number (numeric_value eng s)"
| "to_number eng (Obj _) = NaN"

text \<open>\<open>l + r\<close>: both operands are made primitive; when either is then a string the
  strings are concatenated, otherwise the numbers are added.\<close>

definition js_plus :: "engine \<Rightarrow> jsval \<Rightarrow> jsval \<Rightarrow> error + jsval" where
  "js_plus eng l r =
     (case to_primitive l of
        Inl e \<Rightarrow> Inl e
      | Inr lprim \<Rightarrow>
          (case to_primitive r of
             Inl e \<Rightarrow> Inl e
           | Inr rprim \<Rightarrow>
               if is_string lprim \<or> is_string rprim
               then Inr (Str (to_string eng lprim @ to_string eng rprim))
               else Inr (Num (js_add (to_number eng lprim) (to_number eng rprim)))))"

text \<open>\<open>xs.reduce((acc, x) => acc + f(x), init)\<close>, from the left; a throw ends it.\<close>

fun reduce_plus :: "engine \<Rightarrow> ('a \<Rightarrow> jsval) \<Rightarrow> 'a list \<Rightarrow> jsval \<Rightarrow> error + jsval" where
  "reduce_plus eng f [] acc = Inr acc"
| "reduce_plus eng f (x # xs) acc =
     (case js_plus eng acc (f x) of
        Inl e \<Rightarrow> Inl e
      | Inr acc' \<Rightarrow> reduce_plus eng f xs acc')"

text \<open>One step after another: a throw in the first ends the call.\<close>

definition and_then :: "error + 'a \<Rightarrow> ('a \<Rightarrow> error + 'b) \<Rightarrow> error + 'b" where
  "and_then r f = (case r of Inl e \<Rightarrow> Inl e | Inr v \<Rightarrow> f v)"

text \<open>\<open>xs.map(f)\<close> for a callback that may throw.\<close>

fun map_throwing :: "('a \<Rightarrow> error + 'b) \<Rightarrow> 'a list \<Rightarrow> error + 'b list" where
  "map_throwing f [] = Inr []"
| "map_throwing f (x # xs) =
     (case f x of
        Inl e \<Rightarrow> Inl e
      | Inr y \<Rightarrow> (case map_throwing f xs of Inl e \<Rightarrow> Inl e | Inr ys \<Rightarrow> Inr (y # ys)))"

text \<open>
  \<open>Array.prototype.sort\<close> with a comparator. The sort is stable, and a comparator
  result of \<open>NaN\<close> counts as zero; \<open>cmp a b > 0\<close> puts \<open>a\<close> after \<open>b\<close>. Insertion from the
  right end gives the stable order.
\<close>

fun insert_sorted :: "('a \<Rightarrow> 'a \<Rightarrow> jsnum) \<Rightarrow> 'a \<Rightarrow> 'a list \<Rightarrow> 'a list" where
  "insert_sorted cmp x [] = [x]"
| "insert_sorted cmp x (y # ys) =
     (if js_gt (cmp x y) (Finite 0) then y # insert_sorted cmp x ys else x # y # ys)"

definition js_sort :: "('a \<Rightarrow> 'a \<Rightarrow> jsnum) \<Rightarrow> 'a list \<Rightarrow> 'a list" where
  "js_sort cmp xs = foldr (insert_sorted cmp) xs []"

section \<open>The dashboard statistics\<close>

record pipeline =
  qualification :: "object list"
  proposal :: "object list"
  negotiation :: "object list"

record stats =
  totalCustomers :: nat
  activeCustomers :: nat
  totalContacts :: nat
  totalDeals :: nat
  totalDealValue :: jsval
  activeDeals :: nat
  wonDeals :: nat
  lostDeals :: nat
  wonDealValue :: jsval
  totalRevenue :: jsval
  avgHealthScore :: jsnum
  conversionRate :: jsnum
  pipeline :: pipeline
  monthlyRevenue :: "object list"
  topCustomers :: "object list"
  recentActivities :: "object list"

text \<open>\<open>status === 'active'\<close> and the like.\<close>

definition has_status :: "string \<Rightarrow> object \<Rightarrow> bool" where
  "has_status st r = strict_eq (field r ''status'') (Str st)"

text \<open>The deals of a customer that are won:
  \<open>deals.filter(d => d.customerId === customer.id && d.status === 'won')\<close>.\<close>

definition customerDeals :: "object list \<Rightarrow> object \<Rightarrow> object list" where
  "customerDeals ds customer =
     filter (\<lambda>d. strict_eq (field d ''customerId'') (field customer ''id'') \<and> has_status ''won'' d) ds"

text \<open>\<open>customerDeals.reduce((sum, d) => sum + d.value, 0)\<close>.\<close>

definition dealValue :: "engine \<Rightarrow> object list \<Rightarrow> object \<Rightarrow> error + jsval" where
  "dealValue eng ds customer =
     reduce_plus eng (\<lambda>d. field d ''value'') (customerDeals ds customer) (Num (Finite 0))"

text \<open>The callback of the map step, returning \<open>{...customer, dealValue}\<close>.\<close>

definition with_dealValue :: "engine \<Rightarrow> object list \<Rightarrow> object \<Rightarrow> error + object" where
  "with_dealValue eng ds customer =
     (case dealValue eng ds customer of
        Inl e \<Rightarrow> Inl e
      | Inr v \<Rightarrow> Inr (customer(''dealValue'' \<mapsto> v)))"

text \<open>
  \<open>c.dealValue\<close> as the number that \<open>c.dealValue > 0\<close> and \<open>b.dealValue - a.dealValue\<close>
  work on. The dealValue is the result of the reduce, a number or a string, so
  \<open>ToPrimitive\<close> leaves it as it is.
\<close>

definition dealValue_number :: "engine \<Rightarrow> object \<Rightarrow> jsnum" where
  "dealValue_number eng c = to_number eng (field c ''dealValue'')"

text \<open>An entry as the filter step keeps it: its dealValue, as a number, is a whole number
  of units and greater than zero.\<close>

definition kept :: "engine \<Rightarrow> object \<Rightarrow> bool" where
  "kept eng e \<longleftrightarrow> on_grid (dealValue_number eng e) \<and> js_gt (dealValue_number eng e) (Finite 0)"

definition by_dealValue_desc :: "engine \<Rightarrow> object \<Rightarrow> object \<Rightarrow> jsnum" where
  "by_dealValue_desc eng a b = js_sub (dealValue_number eng b) (dealValue_number eng a)"

definition top_customers :: "engine \<Rightarrow> store \<Rightarrow> error + object list" where
  "top_customers eng s =
     (case map_throwing (with_dealValue eng (deals s)) (customers s) of
        Inl e \<Rightarrow> Inl e
      | Inr entries \<Rightarrow>
          Inr (take 5 (js_sort (by_dealValue_desc eng)
                 (filter (\<lambda>c. js_gt (dealValue_number eng c) (Finite 0)) entries))))"

definition month_value :: "string \<Rightarrow> nat \<Rightarrow> object" where
  "month_value m v = [''month'' \<mapsto> Str m, ''value'' \<mapsto> Num (num v)]"

definition getDashboardStats :: "engine \<Rightarrow> store \<Rightarrow> error + stats" where
  "getDashboardStats eng s =
     (let totalCustomers = length (customers s);
          activeCustomers = length (filter (has_status ''active'') (customers s));
          totalContacts = length (contacts s);
          totalDeals = length (deals s);
          activeDeals = length (filter (has_status ''active'') (deals s));
          wonDeals = length (filter (has_status ''won'') (deals s));
          lostDeals = length (filter (has_status ''lost'') (deals s))
      in
      and_then (reduce_plus eng (\<lambda>deal. field deal ''value'')
                  (filter (has_status ''active'') (deals s)) (Num (Finite 0)))
        (\<lambda>totalDealValue.
      and_then (reduce_plus eng (\<lambda>deal. field deal ''value'')
                  (filter (has_status ''won'') (deals s)) (Num (Finite 0)))
        (\<lambda>wonDealValue.
      and_then (reduce_plus eng (\<lambda>c. js_or (field c ''revenue'') (Num (Finite 0)))
                  (customers s) (Num (Finite 0)))
        (\<lambda>totalRevenue.
      and_then (reduce_plus eng (\<lambda>c. js_or (field c ''healthScore'') (Num (Finite 0)))
                  (customers s) (Num (Finite 0)))
        (\<lambda>healthSum.
      and_then (top_customers eng s)
        (\<lambda>topCustomers.
        Inr \<lparr>
          totalCustomers = totalCustomers,
          activeCustomers = activeCustomers,
          totalContacts = totalContacts,
          totalDeals = totalDeals,
          totalDealValue = totalDealValue,
          activeDeals = activeDeals,
          wonDeals = wonDeals,
          lostDeals = lostDeals,
          wonDealValue = wonDealValue,
          totalRevenue = totalRevenue,
          avgHealthScore =
            Math_round (js_div (to_number eng healthSum) (num totalCustomers)),
          conversionRate =
            (if totalDeals > 0
             then js_mul (js_div (num wonDeals) (js_add (num wonDeals) (num lostDeals))) (Finite 100)
             else Finite 0),
          pipeline = \<lparr>
            qualification = filter (\<lambda>d. strict_eq (field d ''stage'') (Str ''qualification'') \<and>
                                       has_status ''active'' d) (deals s),
            proposal = filter (\<lambda>d. strict_eq (field d ''stage'') (Str ''proposal'') \<and>
                                  has_status ''active'' d) (deals s),
            negotiation = filter (\<lambda>d. strict_eq (field d ''stage'') (Str ''negotiation'') \<and>
                                     has_status ''active'' d) (deals s)\<rparr>,
          monthlyRevenue =
            [month_value ''Oct'' 1850000, month_value ''Nov'' 2100000, month_value ''Dec'' 2450000,
             month_value ''Jan'' 2680000, month_value ''Feb'' 3185000, month_value ''Mar'' 3520000],
          topCustomers = topCustomers,
          recentActivities = take 5 (activities s)\<rparr>))))))"

text \<open>
  The first version of the service (\<open>src/services/crmService.js\<close>) computes fewer
  statistics: won deals are counted by their stage, the value of all deals is summed,
  and the conversion rate is the share of won deals among all deals.
\<close>

record basic_stats =
  basic_totalCustomers :: nat
  basic_totalContacts :: nat
  basic_totalDeals :: nat
  basic_totalDealValue :: jsval
  basic_activeDeals :: nat
  basic_wonDeals :: nat
  basic_conversionRate :: jsnum

definition getDashboardStats_basic :: "engine \<Rightarrow> store \<Rightarrow> error + basic_stats" where
  "getDashboardStats_basic eng s =
     (let totalCustomers = length (customers s);
          totalContacts = length (contacts s);
          totalDeals = length (deals s);
          activeDeals = length (filter (has_status ''active'') (deals s));
          wonDeals = length (filter (\<lambda>deal. strict_eq (field deal ''stage'') (Str ''closed-won''))
                               (deals s))
      in
      and_then (reduce_plus eng (\<lambda>deal. field deal ''value'') (deals s) (Num (Finite 0)))
        (\<lambda>totalDealValue.
        Inr \<lparr>
          basic_totalCustomers = totalCustomers,
          basic_totalContacts = totalContacts,
          basic_totalDeals = totalDeals,
          basic_totalDealValue = totalDealValue,
          basic_activeDeals = activeDeals,
          basic_wonDeals = wonDeals,
          basic_conversionRate =
            (if totalDeals > 0 then js_mul (js_div (num wonDeals) (num totalDeals)) (Finite 100)
             else Finite 0)\<rparr>))"

section \<open>A small store\<close>

text \<open>Some of the records the service starts with, cut down to a few properties.\<close>

definition stripe :: object where
  "stripe = [''id'' \<mapsto> Str ''1'', ''name'' \<mapsto> Str ''Stripe Inc.'', ''status'' \<mapsto> Str ''active'',
     ''revenue'' \<mapsto> Num (Finite 14000000000), ''healthScore'' \<mapsto> Num (Finite 95)]"

definition notion :: object where
  "notion = [''id'' \<mapsto> Str ''2'', ''name'' \<mapsto> Str ''Notion Labs'', ''status'' \<mapsto> Str ''active'',
     ''revenue'' \<mapsto> Num (Finite 500000000), ''healthScore'' \<mapsto> Num (Finite 88)]"

definition linear_software :: object where
  "linear_software = [''id'' \<mapsto> Str ''4'', ''name'' \<mapsto> Str ''Linear Software'', ''status'' \<mapsto> Str ''active'',
     ''revenue'' \<mapsto> Num (Finite 80000000), ''healthScore'' \<mapsto> Num (Finite 96)]"

definition patrick :: object where
  "patrick = [''id'' \<mapsto> Str ''1'', ''customerId'' \<mapsto> Str ''1'', ''firstName'' \<mapsto> Str ''Patrick'',
     ''status'' \<mapsto> Str ''active'']"

definition ivan :: object where
  "ivan = [''id'' \<mapsto> Str ''3'', ''customerId'' \<mapsto> Str ''2'', ''firstName'' \<mapsto> Str ''Ivan'',
     ''status'' \<mapsto> Str ''active'']"

definition deal1 :: object where
  "deal1 = [''id'' \<mapsto> Str ''1'', ''customerId'' \<mapsto> Str ''1'',
     ''title'' \<mapsto> Str ''Enterprise Platform License'', ''value'' \<mapsto> Num (Finite 2500000),
     ''stage'' \<mapsto> Str ''closed-won'', ''status'' \<mapsto> Str ''won'']"

definition deal2 :: object where
  "deal2 = [''id'' \<mapsto> Str ''2'', ''customerId'' \<mapsto> Str ''2'',
     ''title'' \<mapsto> Str ''Team Workspace Solution'', ''value'' \<mapsto> Num (Finite 750000),
     ''stage'' \<mapsto> Str ''negotiation'', ''status'' \<mapsto> Str ''active'']"

definition deal4 :: object where
  "deal4 = [''id'' \<mapsto> Str ''4'', ''customerId'' \<mapsto> Str ''4'',
     ''title'' \<mapsto> Str ''Project Management Suite'', ''value'' \<mapsto> Num (Finite 180000),
     ''stage'' \<mapsto> Str ''closed-won'', ''status'' \<mapsto> Str ''won'']"

definition activity1 :: object where
  "activity1 = [''id'' \<mapsto> Str ''1'', ''type'' \<mapsto> Str ''deal_won'', ''title'' \<mapsto> Str ''Deal Closed'',
     ''value'' \<mapsto> Num (Finite 185000), ''relatedId'' \<mapsto> Str ''10'']"

definition demo_store :: store where
  "demo_store = \<lparr>customers = [stripe, notion, linear_software], contacts = [patrick, ivan],
     deals = [deal1, deal2, deal4], activities = [activity1]\<rparr>"

section \<open>A creation input\<close>

text \<open>The customer of the creation scenario: name, email, phone, industry and a nested
  address.\<close>

definition test_co :: object where
  "test_co = [''name'' \<mapsto> Str ''Test Co'', ''email'' \<mapsto> Str ''t@test.com'', ''phone'' \<mapsto> Str ''555'',
     ''industry'' \<mapsto> Str ''Tech'',
     ''address'' \<mapsto> Obj [''city'' \<mapsto> Str ''X'', ''state'' \<mapsto> Str ''Y'']]"

section \<open>Facts about the array functions\<close>

lemmas demo_defs = demo_store_def stripe_def notion_def linear_software_def patrick_def ivan_def
  deal1_def deal2_def deal4_def activity1_def

lemma findIndex_ge: "- 1 \<le> findIndex P xs"
  by (induction xs) (auto simp: Let_def)

lemma findIndex_absent: "findIndex P xs = - 1 \<longleftrightarrow> (\<forall>x \<in> set xs. \<not> P x)"
proof (induction xs)
  case Nil
  show ?case by simp
next
  case (Cons x xs)
  have "- 1 \<le> findIndex P xs" by (rule findIndex_ge)
  with Cons show ?case by (auto simp: Let_def)
qed

lemma findIndex_found:
  assumes "findIndex P xs \<noteq> - 1"
  shows "0 \<le> findIndex P xs" and "nat (findIndex P xs) < length xs"
    and "P (xs ! nat (findIndex P xs))"
    and "\<forall>j < nat (findIndex P xs). \<not> P (xs ! j)"
  using assms
proof (induction xs)
  case Nil
  {
    case 1 then show ?case by simp
  next
    case 2 then show ?case by simp
  next
    case 3 then show ?case by simp
  next
    case 4 then show ?case by simp
  }
next
  case (Cons x xs)
  {
    case 1
    then show ?case using findIndex_ge [of P "x # xs"] by linarith
  next
    case 2
    show ?case
    proof (cases "P x")
      case True then show ?thesis by simp
    next
      case False
      with 2 have ne: "findIndex P xs \<noteq> - 1" by (auto simp: Let_def split: if_splits)
      from Cons.IH(1,2) [OF ne] False ne show ?thesis
        by (simp add: Let_def nat_add_distrib)
    qed
  next
    case 3
    show ?case
    proof (cases "P x")
      case True then show ?thesis by simp
    next
      case False
      with 3 have ne: "findIndex P xs \<noteq> - 1" by (auto simp: Let_def split: if_splits)
      from Cons.IH(1,3) [OF ne] False ne show ?thesis
        by (simp add: Let_def nat_add_distrib)
    qed
  next
    case 4
    show ?case
    proof (cases "P x")
      case True then show ?thesis by simp
    next
      case False
      with 4 have ne: "findIndex P xs \<noteq> - 1" by (auto simp: Let_def split: if_splits)
      from Cons.IH(1,4) [OF ne] False ne show ?thesis
        by (auto simp: Let_def nat_add_distrib less_Suc_eq_0_disj)
    qed
  }
qed


section \<open>Update and delete of an absent id\<close>

text \<open>
  C3. When no record of the store has an id strictly equal to the given one, the three
  updates and the three deletes throw the error with the message of their entity
  (\<open>Customer not found\<close>, \<open>Contact not found\<close>, \<open>Deal not found\<close>) and the store they leave
  is the store they were given, whatever the partial-field object is.
\<close>

theorem absent_id_not_found:
  "((\<forall>c \<in> set (customers s). \<not> strict_eq (field c ''id'') i) \<longrightarrow>
      updateCustomer i date partial s = (Inl (Error ''Customer not found''), s) \<and>
      deleteCustomer i s = (Inl (Error ''Customer not found''), s)) \<and>
   ((\<forall>c \<in> set (contacts s). \<not> strict_eq (field c ''id'') i) \<longrightarrow>
      updateContact i date partial s = (Inl (Error ''Contact not found''), s) \<and>
      deleteContact i s = (Inl (Error ''Contact not found''), s)) \<and>
   ((\<forall>d \<in> set (deals s). \<not> strict_eq (field d ''id'') i) \<longrightarrow>
      updateDeal i date partial s = (Inl (Error ''Deal not found''), s) \<and>
      deleteDeal i s = (Inl (Error ''Deal not found''), s))"
proof (intro conjI impI)
  assume "\<forall>c \<in> set (customers s). \<not> strict_eq (field c ''id'') i"
  then have idx: "findIndex (\<lambda>c. strict_eq (field c ''id'') i) (customers s) = - 1"
    by (simp add: findIndex_absent)
  show "updateCustomer i date partial s = (Inl (Error ''Customer not found''), s)"
    by (simp add: updateCustomer_def idx)
  show "deleteCustomer i s = (Inl (Error ''Customer not found''), s)"
    by (simp add: deleteCustomer_def idx)
next
  assume "\<forall>c \<in> set (contacts s). \<not> strict_eq (field c ''id'') i"
  then have idx: "findIndex (\<lambda>c. strict_eq (field c ''id'') i) (contacts s) = - 1"
    by (simp add: findIndex_absent)
  show "updateContact i date partial s = (Inl (Error ''Contact not found''), s)"
    by (simp add: updateContact_def idx)
  show "deleteContact i s = (Inl (Error ''Contact not found''), s)"
    by (simp add: deleteContact_def idx)
next
  assume "\<forall>d \<in> set (deals s). \<not> strict_eq (field d ''id'') i"
  then have idx: "findIndex (\<lambda>d. strict_eq (field d ''id'') i) (deals s) = - 1"
    by (simp add: findIndex_absent)
  show "updateDeal i date partial s = (Inl (Error ''Deal not found''), s)"
    by (simp add: updateDeal_def idx)
  show "deleteDeal i s = (Inl (Error ''Deal not found''), s)"
    by (simp add: deleteDeal_def idx)
qed

theorem absent_id_not_found_witness:
  "list_all (\<lambda>c. \<not> strict_eq (field c ''id'') (Str ''99'')) (customers demo_store) \<and>
   updateCustomer (Str ''99'') ''2024-03-20'' [''name'' \<mapsto> Str ''Nobody''] demo_store =
     (Inl (Error ''Customer not found''), demo_store) \<and>
   deleteCustomer (Str ''99'') demo_store = (Inl (Error ''Customer not found''), demo_store) \<and>
   list_all (\<lambda>c. \<not> strict_eq (field c ''id'') (Str ''99'')) (contacts demo_store) \<and>
   updateContact (Str ''99'') ''2024-03-20'' [''name'' \<mapsto> Str ''Nobody''] demo_store =
     (Inl (Error ''Contact not found''), demo_store) \<and>
   deleteContact (Str ''99'') demo_store = (Inl (Error ''Contact not found''), demo_store) \<and>
   list_all (\<lambda>d. \<not> strict_eq (field d ''id'') (Str ''99'')) (deals demo_store) \<and>
   updateDeal (Str ''99'') ''2024-03-20'' [''name'' \<mapsto> Str ''Nobody''] demo_store =
     (Inl (Error ''Deal not found''), demo_store) \<and>
   deleteDeal (Str ''99'') demo_store = (Inl (Error ''Deal not found''), demo_store)"
proof -
  have h1: "\<forall>c \<in> set (customers demo_store). \<not> strict_eq (field c ''id'') (Str ''99'')"
    by (simp add: demo_defs field_def)
  have h2: "\<forall>c \<in> set (contacts demo_store). \<not> strict_eq (field c ''id'') (Str ''99'')"
    by (simp add: demo_defs field_def)
  have h3: "\<forall>d \<in> set (deals demo_store). \<not> strict_eq (field d ''id'') (Str ''99'')"
    by (simp add: demo_defs field_def)
  show ?thesis
    using h1 h2 h3
      absent_id_not_found [of demo_store "Str ''99''" "''2024-03-20''" "[''name'' \<mapsto> Str ''Nobody'']"]
    unfolding list_all_iff by blast
qed

section \<open>Deleting a customer does not cascade\<close>

text \<open>
  C9. \<open>deleteCustomer\<close> leaves the contacts, the deals and the activities as they were,
  for every id (present or not) and every store: the contacts and deals whose
  \<open>customerId\<close> names the deleted customer stay in place.
\<close>

theorem deleteCustomer_no_cascade:
  "contacts (snd (deleteCustomer i s)) = contacts s \<and>
   deals (snd (deleteCustomer i s)) = deals s \<and>
   activities (snd (deleteCustomer i s)) = activities s"
  by (simp add: deleteCustomer_def Let_def)

text \<open>Deleting Stripe (id 1) leaves its contact and its deal in the store.\<close>

theorem deleteCustomer_no_cascade_witness:
  "fst (deleteCustomer (Str ''1'') demo_store) = Inr [''success'' \<mapsto> Bool True] \<and>
   customers (snd (deleteCustomer (Str ''1'') demo_store)) = [notion, linear_software] \<and>
   contacts (snd (deleteCustomer (Str ''1'') demo_store)) = [patrick, ivan] \<and>
   deals (snd (deleteCustomer (Str ''1'') demo_store)) = [deal1, deal2, deal4] \<and>
   activities (snd (deleteCustomer (Str ''1'') demo_store)) = [activity1] \<and>
   field patrick ''customerId'' = Str ''1'' \<and> field deal1 ''customerId'' = Str ''1''"
proof -
  have "fst (deleteCustomer (Str ''1'') demo_store) = Inr [''success'' \<mapsto> Bool True] \<and>
    customers (snd (deleteCustomer (Str ''1'') demo_store)) = [notion, linear_software]"
    by (simp add: deleteCustomer_def splice_at_def demo_store_def stripe_def field_def)
  moreover have "field patrick ''customerId'' = Str ''1'' \<and> field deal1 ''customerId'' = Str ''1''"
    by (simp add: patrick_def deal1_def field_def)
  moreover have "contacts demo_store = [patrick, ivan] \<and> deals demo_store = [deal1, deal2, deal4]
    \<and> activities demo_store = [activity1]"
    by (simp add: demo_store_def)
  ultimately show ?thesis
    using deleteCustomer_no_cascade [of "Str ''1''" demo_store] by simp
qed

section \<open>The defaults of a new customer\<close>

text \<open>
  C10. Whatever the input object of \<open>createCustomer\<close> holds, the record returned has
  status \<open>active\<close>, healthScore 80, tier \<open>startup\<close>, and createdAt and updatedAt are the
  dates read from the clock; the record is the one appended to the customers. The five
  properties are written after the spread of the input, so a value the caller supplies
  for one of them is overwritten.
\<close>

theorem createCustomer_defaults:
  "field (fst (createCustomer uuid date1 date2 customerData s)) ''status'' = Str ''active'' \<and>
   field (fst (createCustomer uuid date1 date2 customerData s)) ''healthScore'' = Num (Finite 80) \<and>
   field (fst (createCustomer uuid date1 date2 customerData s)) ''tier'' = Str ''startup'' \<and>
   field (fst (createCustomer uuid date1 date2 customerData s)) ''createdAt'' = Str date1 \<and>
   field (fst (createCustomer uuid date1 date2 customerData s)) ''updatedAt'' = Str date2 \<and>
   customers (snd (createCustomer uuid date1 date2 customerData s)) =
     customers s @ [fst (createCustomer uuid date1 date2 customerData s)]"
  by (simp add: createCustomer_def Let_def field_def)

text \<open>An input that supplies all five properties itself gets the defaults all the same.\<close>

theorem createCustomer_defaults_witness:
  "field (fst (createCustomer ''9b1deb4d-3b7d-4bad-9bdd-2b0d7b3dcb6d'' ''2024-03-20'' ''2024-03-20''
      [''name'' \<mapsto> Str ''Test Co'', ''status'' \<mapsto> Str ''inactive'', ''healthScore'' \<mapsto> Num (Finite 5),
       ''tier'' \<mapsto> Str ''enterprise'', ''createdAt'' \<mapsto> Str ''1999-01-01'',
       ''updatedAt'' \<mapsto> Str ''1999-01-01''] demo_store)) ''status'' = Str ''active'' \<and>
   field (fst (createCustomer ''9b1deb4d-3b7d-4bad-9bdd-2b0d7b3dcb6d'' ''2024-03-20'' ''2024-03-20''
      [''name'' \<mapsto> Str ''Test Co'', ''status'' \<mapsto> Str ''inactive'', ''healthScore'' \<mapsto> Num (Finite 5),
       ''tier'' \<mapsto> Str ''enterprise'', ''createdAt'' \<mapsto> Str ''1999-01-01'',
       ''updatedAt'' \<mapsto> Str ''1999-01-01''] demo_store)) ''healthScore'' = Num (Finite 80) \<and>
   field (fst (createCustomer ''9b1deb4d-3b7d-4bad-9bdd-2b0d7b3dcb6d'' ''2024-03-20'' ''2024-03-20''
      [''name'' \<mapsto> Str ''Test Co'', ''status'' \<mapsto> Str ''inactive'', ''healthScore'' \<mapsto> Num (Finite 5),
       ''tier'' \<mapsto> Str ''enterprise'', ''createdAt'' \<mapsto> Str ''1999-01-01'',
       ''updatedAt'' \<mapsto> Str ''1999-01-01''] demo_store)) ''tier'' = Str ''startup'' \<and>
   field (fst (createCustomer ''9b1deb4d-3b7d-4bad-9bdd-2b0d7b3dcb6d'' ''2024-03-20'' ''2024-03-20''
      [''name'' \<mapsto> Str ''Test Co'', ''status'' \<mapsto> Str ''inactive'', ''healthScore'' \<mapsto> Num (Finite 5),
       ''tier'' \<mapsto> Str ''enterprise'', ''createdAt'' \<mapsto> Str ''1999-01-01'',
       ''updatedAt'' \<mapsto> Str ''1999-01-01''] demo_store)) ''createdAt'' = Str ''2024-03-20'' \<and>
   field (fst (createCustomer ''9b1deb4d-3b7d-4bad-9bdd-2b0d7b3dcb6d'' ''2024-03-20'' ''2024-03-20''
      [''name'' \<mapsto> Str ''Test Co'', ''status'' \<mapsto> Str ''inactive'', ''healthScore'' \<mapsto> Num (Finite 5),
       ''tier'' \<mapsto> Str ''enterprise'', ''createdAt'' \<mapsto> Str ''1999-01-01'',
       ''updatedAt'' \<mapsto> Str ''1999-01-01''] demo_store)) ''updatedAt'' = Str ''2024-03-20''"
  using createCustomer_defaults [of "''9b1deb4d-3b7d-4bad-9bdd-2b0d7b3dcb6d''" "''2024-03-20''"
      "''2024-03-20''"
      "[''name'' \<mapsto> Str ''Test Co'', ''status'' \<mapsto> Str ''inactive'', ''healthScore'' \<mapsto> Num (Finite 5),
       ''tier'' \<mapsto> Str ''enterprise'', ''createdAt'' \<mapsto> Str ''1999-01-01'',
       ''updatedAt'' \<mapsto> Str ''1999-01-01'']" demo_store]
  by blast

section \<open>Delete then get\<close>

lemma strict_eq_imp_eq: "strict_eq a b \<Longrightarrow> a = b"
  by (cases a; cases b) simp_all

lemma present_findIndex:
  "present i xs \<longleftrightarrow> findIndex (\<lambda>r. strict_eq (field r ''id'') i) xs \<noteq> - 1"
  by (simp add: present_def findIndex_absent list_ex_iff)

lemma distinct_splice: "distinct (map f xs) \<Longrightarrow> distinct (map f (splice_at n 1 xs))"
proof (cases "n < length xs")
  case True
  assume d: "distinct (map f xs)"
  from True have "xs = take n xs @ xs ! n # drop (Suc n) xs"
    by (rule id_take_nth_drop)
  then have "distinct (map f (take n xs @ xs ! n # drop (Suc n) xs))"
    using d by simp
  then show ?thesis by (auto simp: splice_at_def)
next
  case False
  assume "distinct (map f xs)"
  with False show ?thesis by (simp add: splice_at_def)
qed

lemma find_after_splice:
  assumes d: "distinct (ids xs)"
    and ne: "findIndex (\<lambda>r. strict_eq (field r ''id'') i) xs \<noteq> - 1"
  shows "List.find (\<lambda>r. strict_eq (field r ''id'') i)
           (splice_at (nat (findIndex (\<lambda>r. strict_eq (field r ''id'') i) xs)) 1 xs) = None"
proof -
  let ?P = "\<lambda>r. strict_eq (field r ''id'') i"
  define n where "n = nat (findIndex ?P xs)"
  have lt: "n < length xs" and hitP: "?P (xs ! n)" and before: "\<forall>j < n. \<not> ?P (xs ! j)"
    using findIndex_found(2-4) [OF ne] by (simp_all add: n_def)
  have hit: "field (xs ! n) ''id'' = i" using hitP by (rule strict_eq_imp_eq)
  have split: "take n xs @ xs ! n # drop (Suc n) xs = xs"
    using lt by (rule id_take_nth_drop [symmetric])
  have "distinct (map (\<lambda>r. field r ''id'') (take n xs @ xs ! n # drop (Suc n) xs))"
    unfolding split using d by (simp add: ids_def)
  then have notin: "i \<notin> (\<lambda>r. field r ''id'') ` set (drop (Suc n) xs)"
    using hit by auto
  have early: "\<not> ?P x" if "x \<in> set (take n xs)" for x
  proof -
    from that obtain j where j: "j < length (take n xs)" "take n xs ! j = x"
      by (meson in_set_conv_nth)
    then have "j < n" "xs ! j = x" by simp_all
    with before show ?thesis by blast
  qed
  have late: "\<not> ?P x" if "x \<in> set (drop (Suc n) xs)" for x
  proof
    assume "?P x"
    then have "field x ''id'' = i" by (rule strict_eq_imp_eq)
    with that notin show False by blast
  qed
  have "set (splice_at n 1 xs) = set (take n xs) \<union> set (drop (Suc n) xs)"
    by (simp add: splice_at_def)
  with early late have "\<not> (\<exists>x. x \<in> set (splice_at n 1 xs) \<and> ?P x)" by blast
  then have "List.find ?P (splice_at n 1 xs) = None" unfolding find_None_iff .
  then show ?thesis by (simp only: n_def)
qed

text \<open>
  C7. In a store whose ids are unique, deleting an id that is present returns
  \<open>{success: true}\<close>, makes the array of that entity shorter by exactly one, and the get
  of the same id on the store that is left returns \<open>undefined\<close>. This holds for
  customers, contacts and deals.
\<close>

theorem delete_then_get:
  "(distinct (ids (customers s)) \<and> present i (customers s) \<longrightarrow>
      fst (deleteCustomer i s) = Inr [''success'' \<mapsto> Bool True] \<and>
      Suc (length (customers (snd (deleteCustomer i s)))) = length (customers s) \<and>
      getCustomer i (snd (deleteCustomer i s)) = None) \<and>
   (distinct (ids (contacts s)) \<and> present i (contacts s) \<longrightarrow>
      fst (deleteContact i s) = Inr [''success'' \<mapsto> Bool True] \<and>
      Suc (length (contacts (snd (deleteContact i s)))) = length (contacts s) \<and>
      getContact i (snd (deleteContact i s)) = None) \<and>
   (distinct (ids (deals s)) \<and> present i (deals s) \<longrightarrow>
      fst (deleteDeal i s) = Inr [''success'' \<mapsto> Bool True] \<and>
      Suc (length (deals (snd (deleteDeal i s)))) = length (deals s) \<and>
      getDeal i (snd (deleteDeal i s)) = None)"
proof (intro conjI impI; elim conjE)
  assume d: "distinct (ids (customers s))" and p: "present i (customers s)"
  from p have ne: "findIndex (\<lambda>r. strict_eq (field r ''id'') i) (customers s) \<noteq> - 1"
    by (simp add: present_findIndex)
  show "fst (deleteCustomer i s) = Inr [''success'' \<mapsto> Bool True]"
    using ne by (simp add: deleteCustomer_def)
  show "Suc (length (customers (snd (deleteCustomer i s)))) = length (customers s)"
    using ne findIndex_found(2) [OF ne] by (simp add: deleteCustomer_def splice_at_def Let_def)
  show "getCustomer i (snd (deleteCustomer i s)) = None"
    using ne find_after_splice [OF d ne] by (simp add: deleteCustomer_def getCustomer_def)
next
  assume d: "distinct (ids (contacts s))" and p: "present i (contacts s)"
  from p have ne: "findIndex (\<lambda>r. strict_eq (field r ''id'') i) (contacts s) \<noteq> - 1"
    by (simp add: present_findIndex)
  show "fst (deleteContact i s) = Inr [''success'' \<mapsto> Bool True]"
    using ne by (simp add: deleteContact_def)
  show "Suc (length (contacts (snd (deleteContact i s)))) = length (contacts s)"
    using ne findIndex_found(2) [OF ne] by (simp add: deleteContact_def splice_at_def Let_def)
  show "getContact i (snd (deleteContact i s)) = None"
    using ne find_after_splice [OF d ne] by (simp add: deleteContact_def getContact_def)
next
  assume d: "distinct (ids (deals s))" and p: "present i (deals s)"
  from p have ne: "findIndex (\<lambda>r. strict_eq (field r ''id'') i) (deals s) \<noteq> - 1"
    by (simp add: present_findIndex)
  show "fst (deleteDeal i s) = Inr [''success'' \<mapsto> Bool True]"
    using ne by (simp add: deleteDeal_def)
  show "Suc (length (deals (snd (deleteDeal i s)))) = length (deals s)"
    using ne findIndex_found(2) [OF ne] by (simp add: deleteDeal_def splice_at_def Let_def)
  show "getDeal i (snd (deleteDeal i s)) = None"
    using ne find_after_splice [OF d ne] by (simp add: deleteDeal_def getDeal_def)
qed

text \<open>Deleting customer 2, contact 3 and deal 2 of the small store.\<close>

lemma demo_ids:
  "ids (customers demo_store) = [Str ''1'', Str ''2'', Str ''4'']"
  "ids (contacts demo_store) = [Str ''1'', Str ''3'']"
  "ids (deals demo_store) = [Str ''1'', Str ''2'', Str ''4'']"
  by (simp_all add: demo_defs ids_def field_def)

theorem delete_then_get_witness:
  "distinct (ids (customers demo_store)) \<and> present (Str ''2'') (customers demo_store) \<and>
   fst (deleteCustomer (Str ''2'') demo_store) = Inr [''success'' \<mapsto> Bool True] \<and>
   Suc (length (customers (snd (deleteCustomer (Str ''2'') demo_store)))) = 3 \<and>
   getCustomer (Str ''2'') (snd (deleteCustomer (Str ''2'') demo_store)) = None \<and>
   distinct (ids (contacts demo_store)) \<and> present (Str ''3'') (contacts demo_store) \<and>
   fst (deleteContact (Str ''3'') demo_store) = Inr [''success'' \<mapsto> Bool True] \<and>
   Suc (length (contacts (snd (deleteContact (Str ''3'') demo_store)))) = 2 \<and>
   getContact (Str ''3'') (snd (deleteContact (Str ''3'') demo_store)) = None \<and>
   distinct (ids (deals demo_store)) \<and> present (Str ''2'') (deals demo_store) \<and>
   fst (deleteDeal (Str ''2'') demo_store) = Inr [''success'' \<mapsto> Bool True] \<and>
   Suc (length (deals (snd (deleteDeal (Str ''2'') demo_store)))) = 3 \<and>
   getDeal (Str ''2'') (snd (deleteDeal (Str ''2'') demo_store)) = None"
proof -
  have d: "distinct (ids (customers demo_store))" "distinct (ids (contacts demo_store))"
    "distinct (ids (deals demo_store))"
    by (simp_all add: demo_ids)
  have p: "present (Str ''2'') (customers demo_store)" "present (Str ''3'') (contacts demo_store)"
    "present (Str ''2'') (deals demo_store)"
    by (simp_all add: present_def demo_defs field_def)
  have l: "length (customers demo_store) = 3" "length (contacts demo_store) = 2"
    "length (deals demo_store) = 3"
    by (simp_all add: demo_store_def)
  show ?thesis
    using d p l delete_then_get [of demo_store "Str ''2''"] delete_then_get [of demo_store "Str ''3''"]
    by simp
qed

section \<open>Updating a deal\<close>

text \<open>
  C8. When some deal has the given id, \<open>updateDeal\<close> writes the first such deal anew
  and returns it: every property other than \<open>updatedAt\<close> holds the value the partial
  object supplies for it (the value itself, so a nested object is replaced as a whole)
  and, when the partial object has no such property, the value the deal had before;
  \<open>updatedAt\<close> holds the date read from the clock. The array keeps its length, every
  other deal is the object it was, and customers, contacts and activities are untouched.
\<close>

theorem updateDeal_shallow_merge:
  assumes "present i (deals s)"
  shows "\<exists>n < length (deals s).
     strict_eq (field (deals s ! n) ''id'') i \<and>
     (\<forall>j < n. \<not> strict_eq (field (deals s ! j) ''id'') i) \<and>
     fst (updateDeal i date partial s) = Inr (deals (snd (updateDeal i date partial s)) ! n) \<and>
     (\<forall>k. k \<noteq> ''updatedAt'' \<longrightarrow>
        (deals (snd (updateDeal i date partial s)) ! n) k =
          (case partial k of Some v \<Rightarrow> Some v | None \<Rightarrow> (deals s ! n) k)) \<and>
     (deals (snd (updateDeal i date partial s)) ! n) ''updatedAt'' = Some (Str date) \<and>
     length (deals (snd (updateDeal i date partial s))) = length (deals s) \<and>
     (\<forall>j < length (deals s). j \<noteq> n \<longrightarrow>
        deals (snd (updateDeal i date partial s)) ! j = deals s ! j) \<and>
     customers (snd (updateDeal i date partial s)) = customers s \<and>
     contacts (snd (updateDeal i date partial s)) = contacts s \<and>
     activities (snd (updateDeal i date partial s)) = activities s"
proof -
  let ?P = "\<lambda>deal. strict_eq (field deal ''id'') i"
  define n where "n = nat (findIndex ?P (deals s))"
  from assms have ne: "findIndex ?P (deals s) \<noteq> - 1"
    by (simp add: present_findIndex)
  have lt: "n < length (deals s)" and hit: "?P (deals s ! n)"
    and before: "\<forall>j < n. \<not> ?P (deals s ! j)"
    using findIndex_found(2-4) [OF ne] by (simp_all add: n_def)
  have upd: "updateDeal i date partial s =
      (Inr (((deals s ! n) ++ partial)(''updatedAt'' \<mapsto> Str date)),
       s\<lparr>deals := (deals s)[n := ((deals s ! n) ++ partial)(''updatedAt'' \<mapsto> Str date)]\<rparr>)"
    using ne lt by (simp add: updateDeal_def Let_def n_def)
  have merged: "\<forall>k. k \<noteq> ''updatedAt'' \<longrightarrow>
      (((deals s ! n) ++ partial)(''updatedAt'' \<mapsto> Str date)) k =
        (case partial k of Some v \<Rightarrow> Some v | None \<Rightarrow> (deals s ! n) k)"
    by (simp add: map_add_def split: option.split)
  show ?thesis
  proof (intro exI [of _ n] conjI)
    show "n < length (deals s)" by (rule lt)
    show "?P (deals s ! n)" by (rule hit)
    show "\<forall>j < n. \<not> ?P (deals s ! j)" by (rule before)
    show "fst (updateDeal i date partial s) = Inr (deals (snd (updateDeal i date partial s)) ! n)"
      using lt by (simp add: upd)
    show "\<forall>k. k \<noteq> ''updatedAt'' \<longrightarrow>
        (deals (snd (updateDeal i date partial s)) ! n) k =
          (case partial k of Some v \<Rightarrow> Some v | None \<Rightarrow> (deals s ! n) k)"
      using lt merged by (simp add: upd)
    show "(deals (snd (updateDeal i date partial s)) ! n) ''updatedAt'' = Some (Str date)"
      using lt by (simp add: upd)
    show "length (deals (snd (updateDeal i date partial s))) = length (deals s)"
      by (simp add: upd)
    show "\<forall>j < length (deals s). j \<noteq> n \<longrightarrow>
        deals (snd (updateDeal i date partial s)) ! j = deals s ! j"
      by (simp add: upd)
    show "customers (snd (updateDeal i date partial s)) = customers s"
      by (simp add: upd)
    show "contacts (snd (updateDeal i date partial s)) = contacts s"
      by (simp add: upd)
    show "activities (snd (updateDeal i date partial s)) = activities s"
      by (simp add: upd)
  qed
qed

text \<open>Closing deal 2 of the small store as won: stage and status change, value and title
  stay, the other deals stay.\<close>

theorem updateDeal_shallow_merge_witness:
  "present (Str ''2'') (deals demo_store) \<and>
   deals (snd (updateDeal (Str ''2'') ''2024-03-20''
       [''stage'' \<mapsto> Str ''closed-won'', ''status'' \<mapsto> Str ''won''] demo_store)) =
     [deal1,
      deal2(''stage'' \<mapsto> Str ''closed-won'', ''status'' \<mapsto> Str ''won'',
            ''updatedAt'' \<mapsto> Str ''2024-03-20''),
      deal4] \<and>
   field (deal2(''stage'' \<mapsto> Str ''closed-won'', ''status'' \<mapsto> Str ''won'',
            ''updatedAt'' \<mapsto> Str ''2024-03-20'')) ''value'' = Num (Finite 750000) \<and>
   field (deal2(''stage'' \<mapsto> Str ''closed-won'', ''status'' \<mapsto> Str ''won'',
            ''updatedAt'' \<mapsto> Str ''2024-03-20'')) ''title'' = Str ''Team Workspace Solution'' \<and>
   customers (snd (updateDeal (Str ''2'') ''2024-03-20''
       [''stage'' \<mapsto> Str ''closed-won'', ''status'' \<mapsto> Str ''won''] demo_store)) =
     customers demo_store \<and>
   contacts (snd (updateDeal (Str ''2'') ''2024-03-20''
       [''stage'' \<mapsto> Str ''closed-won'', ''status'' \<mapsto> Str ''won''] demo_store)) =
     contacts demo_store \<and>
   activities (snd (updateDeal (Str ''2'') ''2024-03-20''
       [''stage'' \<mapsto> Str ''closed-won'', ''status'' \<mapsto> Str ''won''] demo_store)) =
     activities demo_store"
proof -
  let ?p = "[''stage'' \<mapsto> Str ''closed-won'', ''status'' \<mapsto> Str ''won'']"
  have p: "present (Str ''2'') (deals demo_store)"
    by (simp add: present_def demo_defs field_def)
  have idx: "findIndex (\<lambda>deal. strict_eq (field deal ''id'') (Str ''2'')) (deals demo_store) = 1"
    by (simp add: demo_defs field_def)
  have "deal2 ++ ?p = deal2(''stage'' \<mapsto> Str ''closed-won'', ''status'' \<mapsto> Str ''won'')"
    by simp
  then have ds: "deals (snd (updateDeal (Str ''2'') ''2024-03-20'' ?p demo_store)) =
     [deal1,
      deal2(''stage'' \<mapsto> Str ''closed-won'', ''status'' \<mapsto> Str ''won'',
            ''updatedAt'' \<mapsto> Str ''2024-03-20''),
      deal4]"
    by (simp add: updateDeal_def idx) (simp add: demo_store_def Let_def)
  have kept: "field (deal2(''stage'' \<mapsto> Str ''closed-won'', ''status'' \<mapsto> Str ''won'',
            ''updatedAt'' \<mapsto> Str ''2024-03-20'')) ''value'' = Num (Finite 750000)"
    "field (deal2(''stage'' \<mapsto> Str ''closed-won'', ''status'' \<mapsto> Str ''won'',
            ''updatedAt'' \<mapsto> Str ''2024-03-20'')) ''title'' = Str ''Team Workspace Solution''"
    by (simp_all add: field_def deal2_def)
  from updateDeal_shallow_merge [OF p, of "''2024-03-20''" ?p]
  have "customers (snd (updateDeal (Str ''2'') ''2024-03-20'' ?p demo_store)) = customers demo_store \<and>
    contacts (snd (updateDeal (Str ''2'') ''2024-03-20'' ?p demo_store)) = contacts demo_store \<and>
    activities (snd (updateDeal (Str ''2'') ''2024-03-20'' ?p demo_store)) = activities demo_store"
    by blast
  with p ds kept show ?thesis by blast
qed

section \<open>Ids under create, update and delete\<close>

lemma ids_append: "ids (xs @ [r]) = ids xs @ [field r ''id'']"
  by (simp add: ids_def)

lemma merged_id:
  "field ((r ++ partial)(''updatedAt'' \<mapsto> Str date)) ''id'' =
     (case partial ''id'' of None \<Rightarrow> field r ''id'' | Some v \<Rightarrow> v)"
  by (simp add: field_def map_add_def split: option.split)

lemma list_update_distinct_map:
  assumes "distinct ys" and "n < length ys"
  shows "ys[n := y] = map (\<lambda>x. if x = ys ! n then y else x) ys"
proof (rule nth_equalityI)
  show "length (ys[n := y]) = length (map (\<lambda>x. if x = ys ! n then y else x) ys)"
    by simp
next
  fix k assume "k < length (ys[n := y])"
  then have k: "k < length ys" by simp
  with assms have "ys ! k = ys ! n \<longleftrightarrow> k = n" by (simp add: nth_eq_iff_index_eq)
  with k show "ys[n := y] ! k = map (\<lambda>x. if x = ys ! n then y else x) ys ! k"
    by (simp add: nth_list_update)
qed

lemma distinct_list_update_iff:
  assumes "distinct ys" and "n < length ys"
  shows "distinct (ys[n := y]) \<longleftrightarrow> y = ys ! n \<or> y \<notin> set ys"
proof
  assume d: "distinct (ys[n := y])"
  show "y = ys ! n \<or> y \<notin> set ys"
  proof (rule ccontr)
    assume "\<not> (y = ys ! n \<or> y \<notin> set ys)"
    then have ne: "y \<noteq> ys ! n" and mem: "y \<in> set ys" by simp_all
    from mem obtain m where m: "m < length ys" "ys ! m = y" by (auto simp: in_set_conv_nth)
    with ne have mn: "m \<noteq> n" by auto
    have "ys[n := y] ! m = ys[n := y] ! n"
      using m mn assms(2) by simp
    moreover have "m < length (ys[n := y])" "n < length (ys[n := y])"
      using m(1) assms(2) by simp_all
    ultimately have "m = n" using d by (simp only: nth_eq_iff_index_eq)
    with mn show False by contradiction
  qed
next
  assume "y = ys ! n \<or> y \<notin> set ys"
  then show "distinct (ys[n := y])"
  proof
    assume "y = ys ! n"
    with assms show ?thesis by simp
  next
    assume "y \<notin> set ys"
    with assms(1) show ?thesis by (intro distinct_list_update) simp_all
  qed
qed

text \<open>The ids of an array after the record at the first index found has been merged with
  the partial object.\<close>

lemma ids_after_update:
  assumes d: "distinct (ids xs)"
    and ne: "findIndex (\<lambda>r. strict_eq (field r ''id'') i) xs \<noteq> - 1"
  shows "ids (xs[nat (findIndex (\<lambda>r. strict_eq (field r ''id'') i) xs) :=
            ((xs ! nat (findIndex (\<lambda>r. strict_eq (field r ''id'') i) xs)) ++ partial)
              (''updatedAt'' \<mapsto> Str date)]) =
         map (\<lambda>x. if x = i then (case partial ''id'' of None \<Rightarrow> i | Some v \<Rightarrow> v) else x) (ids xs)"
    and "ids (xs[nat (findIndex (\<lambda>r. strict_eq (field r ''id'') i) xs) :=
            ((xs ! nat (findIndex (\<lambda>r. strict_eq (field r ''id'') i) xs)) ++ partial)
              (''updatedAt'' \<mapsto> Str date)]) = ids xs \<longleftrightarrow>
         (case partial ''id'' of None \<Rightarrow> True | Some v \<Rightarrow> v = i)"
    and "distinct (ids (xs[nat (findIndex (\<lambda>r. strict_eq (field r ''id'') i) xs) :=
            ((xs ! nat (findIndex (\<lambda>r. strict_eq (field r ''id'') i) xs)) ++ partial)
              (''updatedAt'' \<mapsto> Str date)])) \<longleftrightarrow>
         (case partial ''id'' of None \<Rightarrow> True | Some v \<Rightarrow> v = i \<or> v \<notin> set (ids xs))"
proof -
  define n where "n = nat (findIndex (\<lambda>r. strict_eq (field r ''id'') i) xs)"
  define y where "y = (case partial ''id'' of None \<Rightarrow> i | Some v \<Rightarrow> v)"
  have lt: "n < length xs" and hit: "strict_eq (field (xs ! n) ''id'') i"
    using findIndex_found(2,3) [OF ne] by (simp_all add: n_def)
  have old: "ids xs ! n = i"
    using strict_eq_imp_eq [OF hit] lt by (simp add: ids_def)
  have len: "n < length (ids xs)" using lt by (simp add: ids_def)
  have upd: "ids (xs[n := ((xs ! n) ++ partial)(''updatedAt'' \<mapsto> Str date)]) = (ids xs)[n := y]"
    using lt old by (simp add: ids_def map_update merged_id y_def split: option.split)
  have "(ids xs)[n := y] = map (\<lambda>x. if x = ids xs ! n then y else x) (ids xs)"
    using d len by (rule list_update_distinct_map)
  then show "ids (xs[nat (findIndex (\<lambda>r. strict_eq (field r ''id'') i) xs) :=
            ((xs ! nat (findIndex (\<lambda>r. strict_eq (field r ''id'') i) xs)) ++ partial)
              (''updatedAt'' \<mapsto> Str date)]) =
         map (\<lambda>x. if x = i then (case partial ''id'' of None \<Rightarrow> i | Some v \<Rightarrow> v) else x) (ids xs)"
    unfolding n_def [symmetric] upd old y_def .
  have "(ids xs)[n := y] = ids xs \<longleftrightarrow> y = i"
    using len old by (auto simp: list_update_same_conv)
  then show "ids (xs[nat (findIndex (\<lambda>r. strict_eq (field r ''id'') i) xs) :=
            ((xs ! nat (findIndex (\<lambda>r. strict_eq (field r ''id'') i) xs)) ++ partial)
              (''updatedAt'' \<mapsto> Str date)]) = ids xs \<longleftrightarrow>
         (case partial ''id'' of None \<Rightarrow> True | Some v \<Rightarrow> v = i)"
    unfolding n_def [symmetric] upd by (simp add: y_def split: option.split)
  have "distinct ((ids xs)[n := y]) \<longleftrightarrow> y = i \<or> y \<notin> set (ids xs)"
    using distinct_list_update_iff [OF d len, of y] old by simp
  then show "distinct (ids (xs[nat (findIndex (\<lambda>r. strict_eq (field r ''id'') i) xs) :=
            ((xs ! nat (findIndex (\<lambda>r. strict_eq (field r ''id'') i) xs)) ++ partial)
              (''updatedAt'' \<mapsto> Str date)])) \<longleftrightarrow>
         (case partial ''id'' of None \<Rightarrow> True | Some v \<Rightarrow> v = i \<or> v \<notin> set (ids xs))"
    unfolding n_def [symmetric] upd by (simp add: y_def split: option.split)
qed

lemma createCustomer_store:
  "customers (snd (createCustomer uuid date1 date2 partial s)) =
     customers s @ [fst (createCustomer uuid date1 date2 partial s)]"
  "contacts (snd (createCustomer uuid date1 date2 partial s)) = contacts s"
  "deals (snd (createCustomer uuid date1 date2 partial s)) = deals s"
  "field (fst (createCustomer uuid date1 date2 partial s)) ''id'' =
     (case partial ''id'' of None \<Rightarrow> Str uuid | Some v \<Rightarrow> v)"
  by (simp_all add: createCustomer_def Let_def field_def map_add_def split: option.split)

lemma createContact_store:
  "contacts (snd (createContact uuid date1 date2 partial s)) =
     contacts s @ [fst (createContact uuid date1 date2 partial s)]"
  "customers (snd (createContact uuid date1 date2 partial s)) = customers s"
  "deals (snd (createContact uuid date1 date2 partial s)) = deals s"
  "field (fst (createContact uuid date1 date2 partial s)) ''id'' =
     (case partial ''id'' of None \<Rightarrow> Str uuid | Some v \<Rightarrow> v)"
  by (simp_all add: createContact_def Let_def field_def map_add_def split: option.split)

lemma createDeal_store:
  "deals (snd (createDeal uuid date1 date2 partial s)) =
     deals s @ [fst (createDeal uuid date1 date2 partial s)]"
  "customers (snd (createDeal uuid date1 date2 partial s)) = customers s"
  "contacts (snd (createDeal uuid date1 date2 partial s)) = contacts s"
  "field (fst (createDeal uuid date1 date2 partial s)) ''id'' =
     (case partial ''id'' of None \<Rightarrow> Str uuid | Some v \<Rightarrow> v)"
  by (simp_all add: createDeal_def Let_def field_def map_add_def split: option.split)

lemma updateCustomer_store:
  assumes "present i (customers s)"
  shows "customers (snd (updateCustomer i date partial s)) =
      (customers s)[nat (findIndex (\<lambda>r. strict_eq (field r ''id'') i) (customers s)) :=
        ((customers s ! nat (findIndex (\<lambda>r. strict_eq (field r ''id'') i) (customers s))) ++ partial)
          (''updatedAt'' \<mapsto> Str date)]"
    and "contacts (snd (updateCustomer i date partial s)) = contacts s"
    and "deals (snd (updateCustomer i date partial s)) = deals s"
  using assms by (simp_all add: updateCustomer_def Let_def present_findIndex)

lemma updateContact_store:
  assumes "present i (contacts s)"
  shows "contacts (snd (updateContact i date partial s)) =
      (contacts s)[nat (findIndex (\<lambda>r. strict_eq (field r ''id'') i) (contacts s)) :=
        ((contacts s ! nat (findIndex (\<lambda>r. strict_eq (field r ''id'') i) (contacts s))) ++ partial)
          (''updatedAt'' \<mapsto> Str date)]"
    and "customers (snd (updateContact i date partial s)) = customers s"
    and "deals (snd (updateContact i date partial s)) = deals s"
  using assms by (simp_all add: updateContact_def Let_def present_findIndex)

lemma updateDeal_store:
  assumes "present i (deals s)"
  shows "deals (snd (updateDeal i date partial s)) =
      (deals s)[nat (findIndex (\<lambda>r. strict_eq (field r ''id'') i) (deals s)) :=
        ((deals s ! nat (findIndex (\<lambda>r. strict_eq (field r ''id'') i) (deals s))) ++ partial)
          (''updatedAt'' \<mapsto> Str date)]"
    and "customers (snd (updateDeal i date partial s)) = customers s"
    and "contacts (snd (updateDeal i date partial s)) = contacts s"
  using assms by (simp_all add: updateDeal_def Let_def present_findIndex)

lemma update_absent:
  "\<not> present i (customers s) \<Longrightarrow> snd (updateCustomer i date partial s) = s"
  "\<not> present i (contacts s) \<Longrightarrow> snd (updateContact i date partial s) = s"
  "\<not> present i (deals s) \<Longrightarrow> snd (updateDeal i date partial s) = s"
  by (simp_all add: updateCustomer_def updateContact_def updateDeal_def present_findIndex)

lemma delete_ids_unique:
  assumes "ids_unique s"
  shows "ids_unique (snd (deleteCustomer i s))"
    and "ids_unique (snd (deleteContact i s))"
    and "ids_unique (snd (deleteDeal i s))"
  using assms distinct_splice [of "\<lambda>r. field r ''id''"]
  by (simp_all add: ids_unique_def ids_def deleteCustomer_def deleteContact_def deleteDeal_def
        Let_def)

text \<open>
  C4, as the code has it. The spread of the partial-field object comes after the
  generated id in a create and after the stored record in an update, so an \<open>id\<close>
  property of the caller's object is the one that is kept. In a store with unique ids:

  \<^item> a create appends a record whose id is the \<open>id\<close> of the input when the input has
    one, and the generated id otherwise; the ids that were there stay as they are, and
    the ids are unique afterwards exactly when the id of the new record was not yet an
    id of the array;
  \<^item> an update of an id that is present gives the record with that id the \<open>id\<close> of the
    input when the input has one, and leaves every other id as it is; so the ids stay
    as they are exactly when the input has no \<open>id\<close> or has the id of the record, and
    they are unique afterwards exactly when the input has no \<open>id\<close>, has the id of the
    record, or has an id that is not yet an id of the array; an update of an id that is
    not present leaves the store as it is;
  \<^item> a delete leaves the ids unique.
\<close>

theorem ids_unique_preserved:
  assumes "ids_unique s"
  shows
  "ids (customers (snd (createCustomer uuid date1 date2 partial s))) =
     ids (customers s) @ [case partial ''id'' of None \<Rightarrow> Str uuid | Some v \<Rightarrow> v] \<and>
   (ids_unique (snd (createCustomer uuid date1 date2 partial s)) \<longleftrightarrow>
     (case partial ''id'' of None \<Rightarrow> Str uuid | Some v \<Rightarrow> v) \<notin> set (ids (customers s))) \<and>
   ids (contacts (snd (createContact uuid date1 date2 partial s))) =
     ids (contacts s) @ [case partial ''id'' of None \<Rightarrow> Str uuid | Some v \<Rightarrow> v] \<and>
   (ids_unique (snd (createContact uuid date1 date2 partial s)) \<longleftrightarrow>
     (case partial ''id'' of None \<Rightarrow> Str uuid | Some v \<Rightarrow> v) \<notin> set (ids (contacts s))) \<and>
   ids (deals (snd (createDeal uuid date1 date2 partial s))) =
     ids (deals s) @ [case partial ''id'' of None \<Rightarrow> Str uuid | Some v \<Rightarrow> v] \<and>
   (ids_unique (snd (createDeal uuid date1 date2 partial s)) \<longleftrightarrow>
     (case partial ''id'' of None \<Rightarrow> Str uuid | Some v \<Rightarrow> v) \<notin> set (ids (deals s))) \<and>
   (present i (customers s) \<longrightarrow>
      ids (customers (snd (updateCustomer i date partial s))) =
        map (\<lambda>x. if x = i then (case partial ''id'' of None \<Rightarrow> i | Some v \<Rightarrow> v) else x)
          (ids (customers s)) \<and>
      (ids (customers (snd (updateCustomer i date partial s))) = ids (customers s) \<longleftrightarrow>
         (case partial ''id'' of None \<Rightarrow> True | Some v \<Rightarrow> v = i)) \<and>
      (ids_unique (snd (updateCustomer i date partial s)) \<longleftrightarrow>
         (case partial ''id'' of None \<Rightarrow> True | Some v \<Rightarrow> v = i \<or> v \<notin> set (ids (customers s))))) \<and>
   (present i (contacts s) \<longrightarrow>
      ids (contacts (snd (updateContact i date partial s))) =
        map (\<lambda>x. if x = i then (case partial ''id'' of None \<Rightarrow> i | Some v \<Rightarrow> v) else x)
          (ids (contacts s)) \<and>
      (ids (contacts (snd (updateContact i date partial s))) = ids (contacts s) \<longleftrightarrow>
         (case partial ''id'' of None \<Rightarrow> True | Some v \<Rightarrow> v = i)) \<and>
      (ids_unique (snd (updateContact i date partial s)) \<longleftrightarrow>
         (case partial ''id'' of None \<Rightarrow> True | Some v \<Rightarrow> v = i \<or> v \<notin> set (ids (contacts s))))) \<and>
   (present i (deals s) \<longrightarrow>
      ids (deals (snd (updateDeal i date partial s))) =
        map (\<lambda>x. if x = i then (case partial ''id'' of None \<Rightarrow> i | Some v \<Rightarrow> v) else x)
          (ids (deals s)) \<and>
      (ids (deals (snd (updateDeal i date partial s))) = ids (deals s) \<longleftrightarrow>
         (case partial ''id'' of None \<Rightarrow> True | Some v \<Rightarrow> v = i)) \<and>
      (ids_unique (snd (updateDeal i date partial s)) \<longleftrightarrow>
         (case partial ''id'' of None \<Rightarrow> True | Some v \<Rightarrow> v = i \<or> v \<notin> set (ids (deals s))))) \<and>
   (\<not> present i (customers s) \<longrightarrow> snd (updateCustomer i date partial s) = s) \<and>
   (\<not> present i (contacts s) \<longrightarrow> snd (updateContact i date partial s) = s) \<and>
   (\<not> present i (deals s) \<longrightarrow> snd (updateDeal i date partial s) = s) \<and>
   ids_unique (snd (deleteCustomer i s)) \<and>
   ids_unique (snd (deleteContact i s)) \<and>
   ids_unique (snd (deleteDeal i s))"
proof -
  from assms have d: "distinct (ids (customers s))" "distinct (ids (contacts s))"
    "distinct (ids (deals s))"
    by (simp_all add: ids_unique_def)
  have c1: "ids (customers (snd (createCustomer uuid date1 date2 partial s))) =
     ids (customers s) @ [case partial ''id'' of None \<Rightarrow> Str uuid | Some v \<Rightarrow> v]"
    by (simp add: createCustomer_store ids_append)
  have c2: "ids (contacts (snd (createContact uuid date1 date2 partial s))) =
     ids (contacts s) @ [case partial ''id'' of None \<Rightarrow> Str uuid | Some v \<Rightarrow> v]"
    by (simp add: createContact_store ids_append)
  have c3: "ids (deals (snd (createDeal uuid date1 date2 partial s))) =
     ids (deals s) @ [case partial ''id'' of None \<Rightarrow> Str uuid | Some v \<Rightarrow> v]"
    by (simp add: createDeal_store ids_append)
  have u1: "ids_unique (snd (createCustomer uuid date1 date2 partial s)) \<longleftrightarrow>
     (case partial ''id'' of None \<Rightarrow> Str uuid | Some v \<Rightarrow> v) \<notin> set (ids (customers s))"
    using d c1 by (simp add: ids_unique_def createCustomer_store(2,3))
  have u2: "ids_unique (snd (createContact uuid date1 date2 partial s)) \<longleftrightarrow>
     (case partial ''id'' of None \<Rightarrow> Str uuid | Some v \<Rightarrow> v) \<notin> set (ids (contacts s))"
    using d c2 by (simp add: ids_unique_def createContact_store(2,3))
  have u3: "ids_unique (snd (createDeal uuid date1 date2 partial s)) \<longleftrightarrow>
     (case partial ''id'' of None \<Rightarrow> Str uuid | Some v \<Rightarrow> v) \<notin> set (ids (deals s))"
    using d c3 by (simp add: ids_unique_def createDeal_store(2,3))
  have p1: "ids (customers (snd (updateCustomer i date partial s))) =
        map (\<lambda>x. if x = i then (case partial ''id'' of None \<Rightarrow> i | Some v \<Rightarrow> v) else x)
          (ids (customers s)) \<and>
      (ids (customers (snd (updateCustomer i date partial s))) = ids (customers s) \<longleftrightarrow>
         (case partial ''id'' of None \<Rightarrow> True | Some v \<Rightarrow> v = i)) \<and>
      (ids_unique (snd (updateCustomer i date partial s)) \<longleftrightarrow>
         (case partial ''id'' of None \<Rightarrow> True | Some v \<Rightarrow> v = i \<or> v \<notin> set (ids (customers s))))"
    if p: "present i (customers s)"
  proof -
    from p have ne: "findIndex (\<lambda>r. strict_eq (field r ''id'') i) (customers s) \<noteq> - 1"
      by (simp add: present_findIndex)
    note a = ids_after_update [OF d(1) ne, of partial date]
    show ?thesis
      using a d(2,3) by (simp add: ids_unique_def updateCustomer_store [OF p])
  qed
  have p2: "ids (contacts (snd (updateContact i date partial s))) =
        map (\<lambda>x. if x = i then (case partial ''id'' of None \<Rightarrow> i | Some v \<Rightarrow> v) else x)
          (ids (contacts s)) \<and>
      (ids (contacts (snd (updateContact i date partial s))) = ids (contacts s) \<longleftrightarrow>
         (case partial ''id'' of None \<Rightarrow> True | Some v \<Rightarrow> v = i)) \<and>
      (ids_unique (snd (updateContact i date partial s)) \<longleftrightarrow>
         (case partial ''id'' of None \<Rightarrow> True | Some v \<Rightarrow> v = i \<or> v \<notin> set (ids (contacts s))))"
    if p: "present i (contacts s)"
  proof -
    from p have ne: "findIndex (\<lambda>r. strict_eq (field r ''id'') i) (contacts s) \<noteq> - 1"
      by (simp add: present_findIndex)
    note a = ids_after_update [OF d(2) ne, of partial date]
    show ?thesis
      using a d(1,3) by (simp add: ids_unique_def updateContact_store [OF p])
  qed
  have p3: "ids (deals (snd (updateDeal i date partial s))) =
        map (\<lambda>x. if x = i then (case partial ''id'' of None \<Rightarrow> i | Some v \<Rightarrow> v) else x)
          (ids (deals s)) \<and>
      (ids (deals (snd (updateDeal i date partial s))) = ids (deals s) \<longleftrightarrow>
         (case partial ''id'' of None \<Rightarrow> True | Some v \<Rightarrow> v = i)) \<and>
      (ids_unique (snd (updateDeal i date partial s)) \<longleftrightarrow>
         (case partial ''id'' of None \<Rightarrow> True | Some v \<Rightarrow> v = i \<or> v \<notin> set (ids (deals s))))"
    if p: "present i (deals s)"
  proof -
    from p have ne: "findIndex (\<lambda>r. strict_eq (field r ''id'') i) (deals s) \<noteq> - 1"
      by (simp add: present_findIndex)
    note a = ids_after_update [OF d(3) ne, of partial date]
    show ?thesis
      using a d(1,2) by (simp add: ids_unique_def updateDeal_store [OF p])
  qed
  note del = delete_ids_unique [OF assms, of i]
  from c1 u1 c2 u2 c3 u3 p1 p2 p3 update_absent [of i s date partial] del
  show ?thesis by blast
qed

text \<open>On the small store: a customer is created from an object without an id and from an
  object with an id of its own that is new; customer 1 is updated with an object that
  carries its own id; record 1 of each array is deleted.\<close>

theorem ids_unique_preserved_witness:
  "ids_unique demo_store \<and>
   ids (customers (snd (createCustomer ''9b1deb4d-3b7d-4bad-9bdd-2b0d7b3dcb6d'' ''2024-03-20''
      ''2024-03-20'' [''name'' \<mapsto> Str ''Test Co''] demo_store))) =
     [Str ''1'', Str ''2'', Str ''4'', Str ''9b1deb4d-3b7d-4bad-9bdd-2b0d7b3dcb6d''] \<and>
   ids_unique (snd (createCustomer ''9b1deb4d-3b7d-4bad-9bdd-2b0d7b3dcb6d'' ''2024-03-20''
      ''2024-03-20'' [''name'' \<mapsto> Str ''Test Co''] demo_store)) \<and>
   ids (customers (snd (createCustomer ''9b1deb4d-3b7d-4bad-9bdd-2b0d7b3dcb6d'' ''2024-03-20''
      ''2024-03-20'' [''id'' \<mapsto> Str ''77'', ''name'' \<mapsto> Str ''Test Co''] demo_store))) =
     [Str ''1'', Str ''2'', Str ''4'', Str ''77''] \<and>
   ids_unique (snd (createCustomer ''9b1deb4d-3b7d-4bad-9bdd-2b0d7b3dcb6d'' ''2024-03-20''
      ''2024-03-20'' [''id'' \<mapsto> Str ''77'', ''name'' \<mapsto> Str ''Test Co''] demo_store)) \<and>
   present (Str ''1'') (customers demo_store) \<and>
   ids (customers (snd (updateCustomer (Str ''1'') ''2024-03-20''
      [''id'' \<mapsto> Str ''1'', ''name'' \<mapsto> Str ''Stripe''] demo_store))) =
     [Str ''1'', Str ''2'', Str ''4''] \<and>
   ids_unique (snd (updateCustomer (Str ''1'') ''2024-03-20''
      [''id'' \<mapsto> Str ''1'', ''name'' \<mapsto> Str ''Stripe''] demo_store)) \<and>
   ids_unique (snd (deleteCustomer (Str ''1'') demo_store)) \<and>
   ids_unique (snd (deleteContact (Str ''1'') demo_store)) \<and>
   ids_unique (snd (deleteDeal (Str ''1'') demo_store))"
proof -
  have u: "ids_unique demo_store"
    by (simp add: ids_unique_def demo_ids)
  have p: "present (Str ''1'') (customers demo_store)"
    by (simp add: present_def demo_defs field_def)
  note a = ids_unique_preserved [OF u, of "''9b1deb4d-3b7d-4bad-9bdd-2b0d7b3dcb6d''"
        "''2024-03-20''" "''2024-03-20''" "[''name'' \<mapsto> Str ''Test Co'']" "Str ''1''" "''2024-03-20''"]
  note b = ids_unique_preserved [OF u, of "''9b1deb4d-3b7d-4bad-9bdd-2b0d7b3dcb6d''"
        "''2024-03-20''" "''2024-03-20''" "[''id'' \<mapsto> Str ''77'', ''name'' \<mapsto> Str ''Test Co'']"
        "Str ''1''" "''2024-03-20''"]
  note c = ids_unique_preserved [OF u, of "''9b1deb4d-3b7d-4bad-9bdd-2b0d7b3dcb6d''"
        "''2024-03-20''" "''2024-03-20''" "[''id'' \<mapsto> Str ''1'', ''name'' \<mapsto> Str ''Stripe'']"
        "Str ''1''" "''2024-03-20''"]
  from a have a': "ids (customers (snd (createCustomer ''9b1deb4d-3b7d-4bad-9bdd-2b0d7b3dcb6d''
      ''2024-03-20'' ''2024-03-20'' [''name'' \<mapsto> Str ''Test Co''] demo_store))) =
     [Str ''1'', Str ''2'', Str ''4'', Str ''9b1deb4d-3b7d-4bad-9bdd-2b0d7b3dcb6d'']"
    "ids_unique (snd (createCustomer ''9b1deb4d-3b7d-4bad-9bdd-2b0d7b3dcb6d'' ''2024-03-20''
      ''2024-03-20'' [''name'' \<mapsto> Str ''Test Co''] demo_store))"
    "ids_unique (snd (deleteCustomer (Str ''1'') demo_store))"
    "ids_unique (snd (deleteContact (Str ''1'') demo_store))"
    "ids_unique (snd (deleteDeal (Str ''1'') demo_store))"
    by (simp_all add: demo_ids)
  from b have b': "ids (customers (snd (createCustomer ''9b1deb4d-3b7d-4bad-9bdd-2b0d7b3dcb6d''
      ''2024-03-20'' ''2024-03-20'' [''id'' \<mapsto> Str ''77'', ''name'' \<mapsto> Str ''Test Co'']
      demo_store))) = [Str ''1'', Str ''2'', Str ''4'', Str ''77'']"
    "ids_unique (snd (createCustomer ''9b1deb4d-3b7d-4bad-9bdd-2b0d7b3dcb6d'' ''2024-03-20''
      ''2024-03-20'' [''id'' \<mapsto> Str ''77'', ''name'' \<mapsto> Str ''Test Co''] demo_store))"
    by (simp_all add: demo_ids)
  from c p have c': "ids (customers (snd (updateCustomer (Str ''1'') ''2024-03-20''
      [''id'' \<mapsto> Str ''1'', ''name'' \<mapsto> Str ''Stripe''] demo_store))) =
     [Str ''1'', Str ''2'', Str ''4'']"
    "ids_unique (snd (updateCustomer (Str ''1'') ''2024-03-20''
      [''id'' \<mapsto> Str ''1'', ''name'' \<mapsto> Str ''Stripe''] demo_store))"
    by (simp_all add: demo_ids)
  from u p a' b' c' show ?thesis by blast
qed

text \<open>
  The claim as the specification states it fails. A create whose object carries the id
  of an existing customer leaves two customers with that id; so does a second create
  for which the generator returns the id it returned for the first; and an update
  whose object carries another id changes the id of the record it modifies.
\<close>

theorem ids_unique_counterexample:
  "ids_unique demo_store \<and>
   ids (customers (snd (createCustomer ''9b1deb4d-3b7d-4bad-9bdd-2b0d7b3dcb6d'' ''2024-03-20''
      ''2024-03-20'' [''id'' \<mapsto> Str ''1'', ''name'' \<mapsto> Str ''Stripe Copy''] demo_store))) =
     [Str ''1'', Str ''2'', Str ''4'', Str ''1''] \<and>
   \<not> ids_unique (snd (createCustomer ''9b1deb4d-3b7d-4bad-9bdd-2b0d7b3dcb6d'' ''2024-03-20''
      ''2024-03-20'' [''id'' \<mapsto> Str ''1'', ''name'' \<mapsto> Str ''Stripe Copy''] demo_store)) \<and>
   ids (customers (snd (createCustomer ''9b1deb4d-3b7d-4bad-9bdd-2b0d7b3dcb6d'' ''2024-03-20''
      ''2024-03-20'' [''name'' \<mapsto> Str ''Second Co'']
      (snd (createCustomer ''9b1deb4d-3b7d-4bad-9bdd-2b0d7b3dcb6d'' ''2024-03-20''
         ''2024-03-20'' [''name'' \<mapsto> Str ''Test Co''] demo_store))))) =
     [Str ''1'', Str ''2'', Str ''4'', Str ''9b1deb4d-3b7d-4bad-9bdd-2b0d7b3dcb6d'',
      Str ''9b1deb4d-3b7d-4bad-9bdd-2b0d7b3dcb6d''] \<and>
   ids (customers (snd (updateCustomer (Str ''1'') ''2024-03-20'' [''id'' \<mapsto> Str ''2'']
      demo_store))) = [Str ''2'', Str ''2'', Str ''4''] \<and>
   \<not> ids_unique (snd (updateCustomer (Str ''1'') ''2024-03-20'' [''id'' \<mapsto> Str ''2'']
      demo_store))"
proof -
  have u: "ids_unique demo_store"
    by (simp add: ids_unique_def demo_ids)
  have c: "ids (customers (snd (createCustomer ''9b1deb4d-3b7d-4bad-9bdd-2b0d7b3dcb6d''
      ''2024-03-20'' ''2024-03-20'' [''id'' \<mapsto> Str ''1'', ''name'' \<mapsto> Str ''Stripe Copy'']
      demo_store))) = [Str ''1'', Str ''2'', Str ''4'', Str ''1'']"
    by (simp add: createCustomer_store ids_append demo_ids)
  have g: "ids (customers (snd (createCustomer ''9b1deb4d-3b7d-4bad-9bdd-2b0d7b3dcb6d'' ''2024-03-20''
      ''2024-03-20'' [''name'' \<mapsto> Str ''Second Co'']
      (snd (createCustomer ''9b1deb4d-3b7d-4bad-9bdd-2b0d7b3dcb6d'' ''2024-03-20''
         ''2024-03-20'' [''name'' \<mapsto> Str ''Test Co''] demo_store))))) =
     [Str ''1'', Str ''2'', Str ''4'', Str ''9b1deb4d-3b7d-4bad-9bdd-2b0d7b3dcb6d'',
      Str ''9b1deb4d-3b7d-4bad-9bdd-2b0d7b3dcb6d'']"
    by (simp add: createCustomer_store ids_def) (simp add: demo_defs field_def)
  have idx: "findIndex (\<lambda>customer. strict_eq (field customer ''id'') (Str ''1''))
      (customers demo_store) = 0"
    by (simp add: demo_defs field_def)
  have up: "ids (customers (snd (updateCustomer (Str ''1'') ''2024-03-20'' [''id'' \<mapsto> Str ''2'']
      demo_store))) = [Str ''2'', Str ''2'', Str ''4'']"
    by (simp add: updateCustomer_def idx Let_def) (simp add: demo_defs ids_def field_def)
  show ?thesis
    using u c g up by (simp add: ids_unique_def)
qed

section \<open>Create then get\<close>

lemma find_appended:
  "(\<forall>x \<in> set xs. \<not> P x) \<Longrightarrow> P r \<Longrightarrow> List.find P (xs @ [r]) = Some r"
  by (induction xs) simp_all

lemma new_id_not_found:
  assumes "v \<notin> set (ids xs)"
  shows "\<forall>x \<in> set xs. \<not> strict_eq (field x ''id'') v"
proof
  fix x assume x: "x \<in> set xs"
  show "\<not> strict_eq (field x ''id'') v"
  proof
    assume "strict_eq (field x ''id'') v"
    then have "field x ''id'' = v" by (rule strict_eq_imp_eq)
    with x have "v \<in> set (ids xs)" by (force simp: ids_def)
    with assms show False by contradiction
  qed
qed

lemma find_created:
  assumes "field r ''id'' \<notin> set (ids xs)" and "strict_eq (field r ''id'') (field r ''id'')"
  shows "List.find (\<lambda>x. strict_eq (field x ''id'') (field r ''id'')) (xs @ [r]) = Some r"
  using new_id_not_found [OF assms(1)] assms(2) by (simp add: find_appended)

text \<open>
  C5, as the code has it. A create gives the record the \<open>id\<close> of the input when the input
  has one, and the generated id otherwise; it appends the record to the array and
  returns it; every property other than the server-assigned ones (id, status, createdAt,
  updatedAt, and for a customer healthScore and tier) is as in the input; createdAt and
  updatedAt are equal when the two readings of the clock give the same date. When the
  id of the record was not yet an id of the array and is strictly equal to itself (as
  every string is), the get of that id on the store that is left returns this very
  record.
\<close>

theorem create_then_get:
  "(case createCustomer uuid date1 date2 partial s of (r, s') \<Rightarrow>
      field r ''id'' = (case partial ''id'' of None \<Rightarrow> Str uuid | Some v \<Rightarrow> v) \<and>
      customers s' = customers s @ [r] \<and>
      (date1 = date2 \<longrightarrow> field r ''createdAt'' = field r ''updatedAt'') \<and>
      (\<forall>k. k \<notin> {''id'', ''status'', ''healthScore'', ''tier'', ''createdAt'', ''updatedAt''}
         \<longrightarrow> r k = partial k) \<and>
      (field r ''id'' \<notin> set (ids (customers s)) \<and> strict_eq (field r ''id'') (field r ''id'')
         \<longrightarrow> getCustomer (field r ''id'') s' = Some r)) \<and>
   (case createContact uuid date1 date2 partial s of (r, s') \<Rightarrow>
      field r ''id'' = (case partial ''id'' of None \<Rightarrow> Str uuid | Some v \<Rightarrow> v) \<and>
      contacts s' = contacts s @ [r] \<and>
      (date1 = date2 \<longrightarrow> field r ''createdAt'' = field r ''updatedAt'') \<and>
      (\<forall>k. k \<notin> {''id'', ''status'', ''createdAt'', ''updatedAt''} \<longrightarrow> r k = partial k) \<and>
      (field r ''id'' \<notin> set (ids (contacts s)) \<and> strict_eq (field r ''id'') (field r ''id'')
         \<longrightarrow> getContact (field r ''id'') s' = Some r)) \<and>
   (case createDeal uuid date1 date2 partial s of (r, s') \<Rightarrow>
      field r ''id'' = (case partial ''id'' of None \<Rightarrow> Str uuid | Some v \<Rightarrow> v) \<and>
      deals s' = deals s @ [r] \<and>
      (date1 = date2 \<longrightarrow> field r ''createdAt'' = field r ''updatedAt'') \<and>
      (\<forall>k. k \<notin> {''id'', ''status'', ''createdAt'', ''updatedAt''} \<longrightarrow> r k = partial k) \<and>
      (field r ''id'' \<notin> set (ids (deals s)) \<and> strict_eq (field r ''id'') (field r ''id'')
         \<longrightarrow> getDeal (field r ''id'') s' = Some r))"
proof (intro conjI)
  obtain r s' where c: "createCustomer uuid date1 date2 partial s = (r, s')"
    by (cases "createCustomer uuid date1 date2 partial s")
  then have r: "r = ([''id'' \<mapsto> Str uuid] ++ partial)
            (''status'' \<mapsto> Str ''active'', ''healthScore'' \<mapsto> Num (Finite 80),
             ''tier'' \<mapsto> Str ''startup'', ''createdAt'' \<mapsto> Str date1,
             ''updatedAt'' \<mapsto> Str date2)"
    and s': "s' = s\<lparr>customers := customers s @ [r]\<rparr>"
    by (auto simp: createCustomer_def Let_def)
  have rid: "field r ''id'' = (case partial ''id'' of None \<Rightarrow> Str uuid | Some v \<Rightarrow> v)"
    by (simp add: r field_def map_add_def split: option.split)
  have dates: "date1 = date2 \<longrightarrow> field r ''createdAt'' = field r ''updatedAt''"
    by (simp add: r field_def)
  have rest: "\<forall>k. k \<notin> {''id'', ''status'', ''healthScore'', ''tier'', ''createdAt'', ''updatedAt''}
           \<longrightarrow> r k = partial k"
    by (auto simp: r map_add_def split: option.split)
  have get: "field r ''id'' \<notin> set (ids (customers s)) \<and> strict_eq (field r ''id'') (field r ''id'')
         \<longrightarrow> getCustomer (field r ''id'') s' = Some r"
    using find_created [of r "customers s"] by (simp add: getCustomer_def s')
  from rid dates rest get s' show "case createCustomer uuid date1 date2 partial s of (r, s') \<Rightarrow>
      field r ''id'' = (case partial ''id'' of None \<Rightarrow> Str uuid | Some v \<Rightarrow> v) \<and>
      customers s' = customers s @ [r] \<and>
      (date1 = date2 \<longrightarrow> field r ''createdAt'' = field r ''updatedAt'') \<and>
      (\<forall>k. k \<notin> {''id'', ''status'', ''healthScore'', ''tier'', ''createdAt'', ''updatedAt''}
         \<longrightarrow> r k = partial k) \<and>
      (field r ''id'' \<notin> set (ids (customers s)) \<and> strict_eq (field r ''id'') (field r ''id'')
         \<longrightarrow> getCustomer (field r ''id'') s' = Some r)"
    by (simp add: c)
next
  obtain r s' where c: "createContact uuid date1 date2 partial s = (r, s')"
    by (cases "createContact uuid date1 date2 partial s")
  then have r: "r = ([''id'' \<mapsto> Str uuid] ++ partial)
            (''status'' \<mapsto> Str ''active'', ''createdAt'' \<mapsto> Str date1,
             ''updatedAt'' \<mapsto> Str date2)"
    and s': "s' = s\<lparr>contacts := contacts s @ [r]\<rparr>"
    by (auto simp: createContact_def Let_def)
  have rid: "field r ''id'' = (case partial ''id'' of None \<Rightarrow> Str uuid | Some v \<Rightarrow> v)"
    by (simp add: r field_def map_add_def split: option.split)
  have dates: "date1 = date2 \<longrightarrow> field r ''createdAt'' = field r ''updatedAt''"
    by (simp add: r field_def)
  have rest: "\<forall>k. k \<notin> {''id'', ''status'', ''createdAt'', ''updatedAt''} \<longrightarrow> r k = partial k"
    by (auto simp: r map_add_def split: option.split)
  have get: "field r ''id'' \<notin> set (ids (contacts s)) \<and> strict_eq (field r ''id'') (field r ''id'')
         \<longrightarrow> getContact (field r ''id'') s' = Some r"
    using find_created [of r "contacts s"] by (simp add: getContact_def s')
  from rid dates rest get s' show "case createContact uuid date1 date2 partial s of (r, s') \<Rightarrow>
      field r ''id'' = (case partial ''id'' of None \<Rightarrow> Str uuid | Some v \<Rightarrow> v) \<and>
      contacts s' = contacts s @ [r] \<and>
      (date1 = date2 \<longrightarrow> field r ''createdAt'' = field r ''updatedAt'') \<and>
      (\<forall>k. k \<notin> {''id'', ''status'', ''createdAt'', ''updatedAt''} \<longrightarrow> r k = partial k) \<and>
      (field r ''id'' \<notin> set (ids (contacts s)) \<and> strict_eq (field r ''id'') (field r ''id'')
         \<longrightarrow> getContact (field r ''id'') s' = Some r)"
    by (simp add: c)
next
  obtain r s' where c: "createDeal uuid date1 date2 partial s = (r, s')"
    by (cases "createDeal uuid date1 date2 partial s")
  then have r: "r = ([''id'' \<mapsto> Str uuid] ++ partial)
            (''status'' \<mapsto> Str ''active'', ''createdAt'' \<mapsto> Str date1,
             ''updatedAt'' \<mapsto> Str date2)"
    and s': "s' = s\<lparr>deals := deals s @ [r]\<rparr>"
    by (auto simp: createDeal_def Let_def)
  have rid: "field r ''id'' = (case partial ''id'' of None \<Rightarrow> Str uuid | Some v \<Rightarrow> v)"
    by (simp add: r field_def map_add_def split: option.split)
  have dates: "date1 = date2 \<longrightarrow> field r ''createdAt'' = field r ''updatedAt''"
    by (simp add: r field_def)
  have rest: "\<forall>k. k \<notin> {''id'', ''status'', ''createdAt'', ''updatedAt''} \<longrightarrow> r k = partial k"
    by (auto simp: r map_add_def split: option.split)
  have get: "field r ''id'' \<notin> set (ids (deals s)) \<and> strict_eq (field r ''id'') (field r ''id'')
         \<longrightarrow> getDeal (field r ''id'') s' = Some r"
    using find_created [of r "deals s"] by (simp add: getDeal_def s')
  from rid dates rest get s' show "case createDeal uuid date1 date2 partial s of (r, s') \<Rightarrow>
      field r ''id'' = (case partial ''id'' of None \<Rightarrow> Str uuid | Some v \<Rightarrow> v) \<and>
      deals s' = deals s @ [r] \<and>
      (date1 = date2 \<longrightarrow> field r ''createdAt'' = field r ''updatedAt'') \<and>
      (\<forall>k. k \<notin> {''id'', ''status'', ''createdAt'', ''updatedAt''} \<longrightarrow> r k = partial k) \<and>
      (field r ''id'' \<notin> set (ids (deals s)) \<and> strict_eq (field r ''id'') (field r ''id'')
         \<longrightarrow> getDeal (field r ''id'') s' = Some r)"
    by (simp add: c)
qed

text \<open>Creating the scenario's customer in the small store, and a contact with an id of its
  own that is new, with both clock readings on 2024-03-20.\<close>

theorem create_then_get_witness:
  "field (fst (createCustomer ''9b1deb4d-3b7d-4bad-9bdd-2b0d7b3dcb6d'' ''2024-03-20''
      ''2024-03-20'' test_co demo_store)) ''id'' = Str ''9b1deb4d-3b7d-4bad-9bdd-2b0d7b3dcb6d'' \<and>
   Str ''9b1deb4d-3b7d-4bad-9bdd-2b0d7b3dcb6d'' \<notin> set (ids (customers demo_store)) \<and>
   field (fst (createCustomer ''9b1deb4d-3b7d-4bad-9bdd-2b0d7b3dcb6d'' ''2024-03-20''
      ''2024-03-20'' test_co demo_store)) ''createdAt'' =
     field (fst (createCustomer ''9b1deb4d-3b7d-4bad-9bdd-2b0d7b3dcb6d'' ''2024-03-20''
      ''2024-03-20'' test_co demo_store)) ''updatedAt'' \<and>
   getCustomer (Str ''9b1deb4d-3b7d-4bad-9bdd-2b0d7b3dcb6d'')
      (snd (createCustomer ''9b1deb4d-3b7d-4bad-9bdd-2b0d7b3dcb6d'' ''2024-03-20''
         ''2024-03-20'' test_co demo_store)) =
     Some (fst (createCustomer ''9b1deb4d-3b7d-4bad-9bdd-2b0d7b3dcb6d'' ''2024-03-20''
         ''2024-03-20'' test_co demo_store)) \<and>
   fst (createCustomer ''9b1deb4d-3b7d-4bad-9bdd-2b0d7b3dcb6d'' ''2024-03-20''
      ''2024-03-20'' test_co demo_store) ''name'' = Some (Str ''Test Co'') \<and>
   field (fst (createContact ''9b1deb4d-3b7d-4bad-9bdd-2b0d7b3dcb6d'' ''2024-03-20''
      ''2024-03-20'' [''id'' \<mapsto> Str ''77'', ''firstName'' \<mapsto> Str ''Ada''] demo_store)) ''id'' =
     Str ''77'' \<and>
   Str ''77'' \<notin> set (ids (contacts demo_store)) \<and>
   getContact (Str ''77'')
      (snd (createContact ''9b1deb4d-3b7d-4bad-9bdd-2b0d7b3dcb6d'' ''2024-03-20''
         ''2024-03-20'' [''id'' \<mapsto> Str ''77'', ''firstName'' \<mapsto> Str ''Ada''] demo_store)) =
     Some (fst (createContact ''9b1deb4d-3b7d-4bad-9bdd-2b0d7b3dcb6d'' ''2024-03-20''
         ''2024-03-20'' [''id'' \<mapsto> Str ''77'', ''firstName'' \<mapsto> Str ''Ada''] demo_store))"
proof -
  have k: "test_co ''id'' = None"
    by (simp add: test_co_def)
  have f: "Str ''9b1deb4d-3b7d-4bad-9bdd-2b0d7b3dcb6d'' \<notin> set (ids (customers demo_store))"
    "Str ''77'' \<notin> set (ids (contacts demo_store))"
    by (simp_all add: demo_ids)
  have n: "fst (createCustomer ''9b1deb4d-3b7d-4bad-9bdd-2b0d7b3dcb6d'' ''2024-03-20''
      ''2024-03-20'' test_co demo_store) ''name'' = Some (Str ''Test Co'')"
    by (simp add: createCustomer_def Let_def test_co_def)
  note a = create_then_get [where uuid = "''9b1deb4d-3b7d-4bad-9bdd-2b0d7b3dcb6d''"
      and ?date1.0 = "''2024-03-20''" and ?date2.0 = "''2024-03-20''" and partial = test_co
      and s = demo_store]
  note b = create_then_get [where uuid = "''9b1deb4d-3b7d-4bad-9bdd-2b0d7b3dcb6d''"
      and ?date1.0 = "''2024-03-20''" and ?date2.0 = "''2024-03-20''"
      and partial = "[''id'' \<mapsto> Str ''77'', ''firstName'' \<mapsto> Str ''Ada'']" and s = demo_store]
  from a k f(1) have a': "field (fst (createCustomer ''9b1deb4d-3b7d-4bad-9bdd-2b0d7b3dcb6d''
      ''2024-03-20'' ''2024-03-20'' test_co demo_store)) ''id'' =
      Str ''9b1deb4d-3b7d-4bad-9bdd-2b0d7b3dcb6d''"
    "field (fst (createCustomer ''9b1deb4d-3b7d-4bad-9bdd-2b0d7b3dcb6d'' ''2024-03-20''
      ''2024-03-20'' test_co demo_store)) ''createdAt'' =
     field (fst (createCustomer ''9b1deb4d-3b7d-4bad-9bdd-2b0d7b3dcb6d'' ''2024-03-20''
      ''2024-03-20'' test_co demo_store)) ''updatedAt''"
    "getCustomer (Str ''9b1deb4d-3b7d-4bad-9bdd-2b0d7b3dcb6d'')
      (snd (createCustomer ''9b1deb4d-3b7d-4bad-9bdd-2b0d7b3dcb6d'' ''2024-03-20''
         ''2024-03-20'' test_co demo_store)) =
     Some (fst (createCustomer ''9b1deb4d-3b7d-4bad-9bdd-2b0d7b3dcb6d'' ''2024-03-20''
         ''2024-03-20'' test_co demo_store))"
    by (clarsimp simp: case_prod_unfold)+
  from b f(2) have b': "field (fst (createContact ''9b1deb4d-3b7d-4bad-9bdd-2b0d7b3dcb6d''
      ''2024-03-20'' ''2024-03-20'' [''id'' \<mapsto> Str ''77'', ''firstName'' \<mapsto> Str ''Ada'']
      demo_store)) ''id'' = Str ''77''"
    "getContact (Str ''77'')
      (snd (createContact ''9b1deb4d-3b7d-4bad-9bdd-2b0d7b3dcb6d'' ''2024-03-20''
         ''2024-03-20'' [''id'' \<mapsto> Str ''77'', ''firstName'' \<mapsto> Str ''Ada''] demo_store)) =
     Some (fst (createContact ''9b1deb4d-3b7d-4bad-9bdd-2b0d7b3dcb6d'' ''2024-03-20''
         ''2024-03-20'' [''id'' \<mapsto> Str ''77'', ''firstName'' \<mapsto> Str ''Ada''] demo_store))"
    by (clarsimp simp: case_prod_unfold)+
  from a' b' f n show ?thesis by blast
qed

text \<open>
  The claim as the specification states it fails. When the input carries the id of
  Stripe, the id of the new record was in the store before the call and the get of it
  returns Stripe's record. When the generator returns for a second create the id it
  returned for the first, the id was in the store as well and the get returns the
  first record. When the input carries the id \<open>NaN\<close>, the get returns \<open>undefined\<close>.
\<close>

theorem create_then_get_counterexample:
  "field (fst (createCustomer ''9b1deb4d-3b7d-4bad-9bdd-2b0d7b3dcb6d'' ''2024-03-20''
      ''2024-03-20'' [''id'' \<mapsto> Str ''1'', ''name'' \<mapsto> Str ''Stripe Copy''] demo_store)) ''id'' =
     Str ''1'' \<and>
   Str ''1'' \<in> set (ids (customers demo_store)) \<and>
   getCustomer (Str ''1'')
     (snd (createCustomer ''9b1deb4d-3b7d-4bad-9bdd-2b0d7b3dcb6d'' ''2024-03-20''
        ''2024-03-20'' [''id'' \<mapsto> Str ''1'', ''name'' \<mapsto> Str ''Stripe Copy''] demo_store)) =
     Some stripe \<and>
   field stripe ''name'' = Str ''Stripe Inc.'' \<and>
   field (fst (createCustomer ''9b1deb4d-3b7d-4bad-9bdd-2b0d7b3dcb6d'' ''2024-03-20''
      ''2024-03-20'' [''id'' \<mapsto> Str ''1'', ''name'' \<mapsto> Str ''Stripe Copy''] demo_store)) ''name'' =
     Str ''Stripe Copy'' \<and>
   field (fst (createCustomer ''9b1deb4d-3b7d-4bad-9bdd-2b0d7b3dcb6d'' ''2024-03-20''
      ''2024-03-20'' [''name'' \<mapsto> Str ''Second Co'']
      (snd (createCustomer ''9b1deb4d-3b7d-4bad-9bdd-2b0d7b3dcb6d'' ''2024-03-20''
         ''2024-03-20'' [''name'' \<mapsto> Str ''Test Co''] demo_store)))) ''id'' =
     Str ''9b1deb4d-3b7d-4bad-9bdd-2b0d7b3dcb6d'' \<and>
   Str ''9b1deb4d-3b7d-4bad-9bdd-2b0d7b3dcb6d'' \<in>
     set (ids (customers (snd (createCustomer ''9b1deb4d-3b7d-4bad-9bdd-2b0d7b3dcb6d''
       ''2024-03-20'' ''2024-03-20'' [''name'' \<mapsto> Str ''Test Co''] demo_store)))) \<and>
   map_option (\<lambda>r. field r ''name'')
     (getCustomer (Str ''9b1deb4d-3b7d-4bad-9bdd-2b0d7b3dcb6d'')
        (snd (createCustomer ''9b1deb4d-3b7d-4bad-9bdd-2b0d7b3dcb6d'' ''2024-03-20''
           ''2024-03-20'' [''name'' \<mapsto> Str ''Second Co'']
           (snd (createCustomer ''9b1deb4d-3b7d-4bad-9bdd-2b0d7b3dcb6d'' ''2024-03-20''
              ''2024-03-20'' [''name'' \<mapsto> Str ''Test Co''] demo_store))))) =
     Some (Str ''Test Co'') \<and>
   field (fst (createCustomer ''9b1deb4d-3b7d-4bad-9bdd-2b0d7b3dcb6d'' ''2024-03-20''
      ''2024-03-20'' [''id'' \<mapsto> Num NaN, ''name'' \<mapsto> Str ''Test Co''] demo_store)) ''id'' =
     Num NaN \<and>
   getCustomer (Num NaN)
     (snd (createCustomer ''9b1deb4d-3b7d-4bad-9bdd-2b0d7b3dcb6d'' ''2024-03-20''
        ''2024-03-20'' [''id'' \<mapsto> Num NaN, ''name'' \<mapsto> Str ''Test Co''] demo_store)) = None"
proof -
  have own: "getCustomer (Str ''1'')
     (snd (createCustomer ''9b1deb4d-3b7d-4bad-9bdd-2b0d7b3dcb6d'' ''2024-03-20''
        ''2024-03-20'' [''id'' \<mapsto> Str ''1'', ''name'' \<mapsto> Str ''Stripe Copy''] demo_store)) =
     Some stripe"
    by (simp add: getCustomer_def createCustomer_def Let_def demo_store_def)
       (simp add: stripe_def field_def)
  have name: "field stripe ''name'' = Str ''Stripe Inc.''"
    by (simp add: stripe_def field_def)
  have twice: "map_option (\<lambda>r. field r ''name'')
     (getCustomer (Str ''9b1deb4d-3b7d-4bad-9bdd-2b0d7b3dcb6d'')
        (snd (createCustomer ''9b1deb4d-3b7d-4bad-9bdd-2b0d7b3dcb6d'' ''2024-03-20''
           ''2024-03-20'' [''name'' \<mapsto> Str ''Second Co'']
           (snd (createCustomer ''9b1deb4d-3b7d-4bad-9bdd-2b0d7b3dcb6d'' ''2024-03-20''
              ''2024-03-20'' [''name'' \<mapsto> Str ''Test Co''] demo_store))))) =
     Some (Str ''Test Co'')"
    by (simp add: getCustomer_def createCustomer_def Let_def demo_defs field_def)
  have nan: "getCustomer (Num NaN)
     (snd (createCustomer ''9b1deb4d-3b7d-4bad-9bdd-2b0d7b3dcb6d'' ''2024-03-20''
        ''2024-03-20'' [''id'' \<mapsto> Num NaN, ''name'' \<mapsto> Str ''Test Co''] demo_store)) = None"
    by (simp add: getCustomer_def createCustomer_def Let_def demo_defs field_def)
  have mem: "Str ''9b1deb4d-3b7d-4bad-9bdd-2b0d7b3dcb6d'' \<in>
     set (ids (customers (snd (createCustomer ''9b1deb4d-3b7d-4bad-9bdd-2b0d7b3dcb6d''
       ''2024-03-20'' ''2024-03-20'' [''name'' \<mapsto> Str ''Test Co''] demo_store))))"
    by (simp add: createCustomer_store ids_append)
  from own name twice nan mem show ?thesis
    by (simp add: createCustomer_store(4) demo_ids) (simp add: createCustomer_def Let_def field_def)
qed

section \<open>Rounding to a double\<close>

lemma round_half_even_of_int: "round_half_even (of_int n) = n"
  by (simp add: round_half_even_def)

lemma round_half_even_ge_floor: "\<lfloor>y\<rfloor> \<le> round_half_even y"
  by (simp add: round_half_even_def Let_def)

lemma round_units_nonneg:
  assumes "0 \<le> y"
  shows "0 \<le> round_units y"
proof -
  define j where "j = nat (bitlen \<lfloor>y\<rfloor> - 53)"
  have "0 \<le> y / 2 ^ j" using assms by simp
  then have "0 \<le> \<lfloor>y / 2 ^ j\<rfloor>" by (simp only: zero_le_floor)
  also have "\<dots> \<le> round_half_even (y / 2 ^ j)" by (rule round_half_even_ge_floor)
  finally show ?thesis by (simp add: round_units_def Let_def j_def)
qed

lemma round_units_pos:
  assumes "0 < k"
  shows "0 < round_units (of_int k)"
proof -
  define j where "j = nat (bitlen k - 53)"
  have "j \<le> nat (bitlen k - 1)" by (simp add: j_def)
  then have "(2::int) ^ j \<le> 2 ^ nat (bitlen k - 1)"
    by (simp add: power_increasing)
  also have "\<dots> \<le> k" using bitlen_bounds [OF assms] by simp
  finally have "(2::int) ^ j \<le> k" .
  then have "(of_int ((2::int) ^ j) :: rat) \<le> of_int k" by (simp only: of_int_le_iff)
  then have "(1::rat) \<le> of_int k / 2 ^ j" by (simp add: le_divide_eq)
  then have "1 \<le> \<lfloor>(of_int k :: rat) / 2 ^ j\<rfloor>" by (simp only: one_le_floor)
  also have "\<dots> \<le> round_half_even (of_int k / 2 ^ j)" by (rule round_half_even_ge_floor)
  finally have "0 < round_half_even (of_int k / 2 ^ j) * 2 ^ j" by simp
  then show ?thesis by (simp add: round_units_def Let_def j_def)
qed

lemma round_units_exact:
  assumes "0 < n" and "n < 2 ^ 53"
  shows "round_units (of_int (n * 2 ^ e)) = n * 2 ^ e"
proof -
  define j where "j = nat (bitlen n + int e - 53)"
  define c where "c = e - j"
  have b1: "1 \<le> bitlen n" using assms(1) by (simp add: bitlen_alt_def)
  have b53: "bitlen n \<le> 53"
    using assms by (simp add: bitlen_le_iff_power)
  have split: "e = c + j" using b53 by (simp add: c_def j_def)
  have "(2::rat) ^ e = 2 ^ c * 2 ^ j"
    by (subst split) (rule power_add)
  then have "(of_int (n * 2 ^ e) :: rat) / 2 ^ j = of_int (n * 2 ^ c)" by simp
  then have "round_half_even (of_int (n * 2 ^ e) / 2 ^ j) = n * 2 ^ c"
    by (simp only: round_half_even_of_int)
  moreover have "(2::int) ^ e = 2 ^ c * 2 ^ j"
    by (subst split) (rule power_add)
  then have "n * 2 ^ c * 2 ^ j = n * 2 ^ e" by simp
  moreover have "nat (bitlen \<lfloor>(of_int (n * 2 ^ e) :: rat)\<rfloor> - 53) = j"
    using assms(1) by (simp add: j_def del: of_int_mult of_int_power)
  ultimately show ?thesis by (simp add: round_units_def Let_def del: of_int_mult of_int_power)
qed

lemma to_double_unfold:
  "to_double x =
     (if 2 ^ max_exponent \<le> (of_int (round_units (\<bar>x\<bar> * 2 ^ min_exponent)) :: rat) / 2 ^ min_exponent
      then (if x < 0 then NegInfinity else PosInfinity)
      else Finite (if x < 0 then - (of_int (round_units (\<bar>x\<bar> * 2 ^ min_exponent)) / 2 ^ min_exponent)
                   else of_int (round_units (\<bar>x\<bar> * 2 ^ min_exponent)) / 2 ^ min_exponent))"
  by (simp only: to_double_def Let_def)

lemma to_double_0 [simp]: "to_double 0 = Finite 0"
proof -
  have "round_units 0 = 0" by (simp add: round_units_def round_half_even_def Let_def)
  moreover have "\<not> (2::rat) ^ max_exponent \<le> 0" by (simp add: not_le)
  ultimately show ?thesis unfolding to_double_unfold by simp
qed

lemma to_double_grid:
  assumes "to_double x = Finite q"
  shows "\<exists>k::int. q = of_int k / 2 ^ min_exponent"
proof -
  define u where "u = round_units (\<bar>x\<bar> * 2 ^ min_exponent)"
  from assms have "q = (if x < 0 then - (of_int u / 2 ^ min_exponent) else of_int u / 2 ^ min_exponent)"
    unfolding to_double_unfold u_def [symmetric] by (simp split: if_splits)
  then have "q = of_int (if x < 0 then - u else u) / 2 ^ min_exponent"
    by simp
  then show ?thesis by blast
qed

lemma to_double_nonpos:
  assumes "x \<le> 0"
  shows "\<not> js_gt (to_double x) (Finite 0)"
proof -
  define u where "u = round_units (\<bar>x\<bar> * 2 ^ min_exponent)"
  have "0 \<le> u" unfolding u_def by (rule round_units_nonneg) simp
  then have mag: "(0::rat) \<le> of_int u / 2 ^ min_exponent" by simp
  show ?thesis
  proof (cases "x < 0")
    case True
    then show ?thesis
      unfolding to_double_unfold u_def [symmetric] using mag by auto
  next
    case False
    with assms have "x = 0" by simp
    then show ?thesis by simp
  qed
qed

lemma to_double_grid_pos:
  assumes "0 < k"
  shows "js_gt (to_double (of_int k / 2 ^ min_exponent)) (Finite 0)"
proof -
  define x :: rat where "x = of_int k / 2 ^ min_exponent"
  define u where "u = round_units (\<bar>x\<bar> * 2 ^ min_exponent)"
  have xpos: "0 < x" using assms by (simp add: x_def)
  have "\<bar>x\<bar> = x" using xpos by simp
  then have "\<bar>x\<bar> * 2 ^ min_exponent = of_int k" by (simp add: x_def)
  then have "0 < u" using round_units_pos [OF assms] by (simp add: u_def)
  then have "(0::rat) < of_int u" by (simp only: of_int_0_less_iff)
  then have mag: "(0::rat) < of_int u / 2 ^ min_exponent" by simp
  show ?thesis
    unfolding x_def [symmetric] to_double_unfold u_def [symmetric]
    using xpos mag by auto
qed

lemma to_double_neg: "to_double (- x) = js_neg (to_double x)"
proof (cases "x = 0")
  case True
  then show ?thesis by simp
next
  case False
  then show ?thesis unfolding to_double_unfold by auto
qed

lemma to_double_int_pos:
  assumes "0 < n" and "n < 2 ^ 53"
  shows "to_double (of_int n) = Finite (of_int n)"
proof -
  define u where "u = round_units (\<bar>of_int n\<bar> * 2 ^ min_exponent)"
  have "\<bar>of_int n :: rat\<bar> * 2 ^ min_exponent = of_int (n * 2 ^ min_exponent)"
    using assms(1) by simp
  then have "u = n * 2 ^ min_exponent"
    unfolding u_def using round_units_exact [OF assms] by (simp only:)
  then have mag: "(of_int u :: rat) / 2 ^ min_exponent = of_int n" by simp
  have "(of_int n :: rat) < of_int (2 ^ 53)" using assms(2) by (simp only: of_int_less_iff)
  also have "\<dots> = 2 ^ 53" by simp
  also have "\<dots> \<le> 2 ^ max_exponent" unfolding max_exponent_def by (rule power_increasing) simp_all
  finally have small: "\<not> (2::rat) ^ max_exponent \<le> of_int n" by simp
  have pos: "\<not> (of_int n :: rat) < 0" using assms(1) by simp
  show ?thesis
    unfolding to_double_unfold u_def [symmetric] mag
    using small pos by simp
qed

lemma to_double_int:
  assumes "\<bar>n\<bar> < 2 ^ 53"
  shows "to_double (of_int n) = Finite (of_int n)"
proof (cases n "0::int" rule: linorder_cases)
  case less
  then have "to_double (of_int (- n)) = Finite (of_int (- n))"
    using assms by (intro to_double_int_pos) simp_all
  then have "js_neg (to_double (of_int n)) = Finite (- of_int n)"
    by (simp add: to_double_neg)
  then show ?thesis by (cases "to_double (of_int n)") simp_all
next
  case equal
  then show ?thesis by simp
next
  case greater
  with assms show ?thesis by (intro to_double_int_pos) simp_all
qed

lemma to_double_numeral [simp]:
  "numeral k < (2::int) ^ 53 \<Longrightarrow> to_double (numeral k) = Finite (numeral k)"
  using to_double_int [of "numeral k"] by simp

lemma to_double_neg_numeral [simp]:
  "numeral k < (2::int) ^ 53 \<Longrightarrow> to_double (- numeral k) = Finite (- numeral k)"
  using to_double_int [of "- numeral k"] by simp

lemma to_double_1 [simp]: "to_double 1 = Finite 1"
  using to_double_int [of 1] by simp

text \<open>Integers below \<open>2\<^sup>5\<^sup>3\<close> in absolute value are doubles; \<open>2\<^sup>5\<^sup>3 + 1\<close> is not and
  rounds to \<open>2\<^sup>5\<^sup>3\<close>; \<open>2\<^sup>1\<^sup>0\<^sup>2\<^sup>4\<close> is out of range.\<close>

lemma js_add_integers:
  "\<bar>a + b\<bar> < 2 ^ 53 \<Longrightarrow> js_add (Finite (of_int a)) (Finite (of_int b)) = Finite (of_int (a + b))"
  using to_double_int [of "a + b"] by simp

lemma to_double_overflow: "to_double (2 ^ max_exponent) = PosInfinity"
proof -
  have "round_units (of_int (1 * 2 ^ (max_exponent + min_exponent))) = 1 * 2 ^ (max_exponent + min_exponent)"
    by (rule round_units_exact) simp_all
  then have "round_units (\<bar>2 ^ max_exponent\<bar> * 2 ^ min_exponent) = 2 ^ (max_exponent + min_exponent)"
    by (simp add: power_add)
  then show ?thesis
    unfolding to_double_unfold by (simp add: power_add)
qed

text \<open>Two additions that are not exact: \<open>2\<^sup>5\<^sup>3 + 1\<close> lies halfway between two doubles and goes
  to the even one, and \<open>2\<^sup>1\<^sup>0\<^sup>2\<^sup>3 + 2\<^sup>1\<^sup>0\<^sup>2\<^sup>3\<close> is out of range.\<close>

lemma js_add_rounds: "js_add (Finite (2 ^ 53)) (Finite 1) = Finite (2 ^ 53)"
proof -
  define n :: int where "n = 2 ^ 53 + 1"
  have b: "bitlen n = 54"
    unfolding n_def using bitlen_twopow_add_eq [of 1 53] by simp
  have fl: "\<lfloor>(of_int (n * 2 ^ min_exponent) :: rat)\<rfloor> = n * 2 ^ min_exponent"
    by (rule floor_of_int)
  have "bitlen (n * 2 ^ min_exponent) = bitlen n + int min_exponent"
    by (rule bitlen_pow2) (simp add: n_def)
  then have j: "nat (bitlen (n * 2 ^ min_exponent) - 53) = Suc min_exponent"
    by (simp add: b)
  have "(of_int (n * 2 ^ min_exponent) :: rat) / 2 ^ Suc min_exponent = of_int n / 2"
    by simp
  moreover have "round_half_even (of_int n / 2) = 2 ^ 52"
  proof -
    have "\<lfloor>(of_int n :: rat) / of_int 2\<rfloor> = n div 2" by (rule floor_divide_of_int_eq)
    then have f: "\<lfloor>(of_int n :: rat) / 2\<rfloor> = 2 ^ 52" by (simp add: n_def)
    show ?thesis unfolding round_half_even_def Let_def f by (simp add: n_def)
  qed
  ultimately have "round_units (of_int (n * 2 ^ min_exponent)) = 2 ^ 52 * 2 ^ Suc min_exponent"
    unfolding round_units_def Let_def fl j by (simp only:)
  moreover have "\<bar>2 ^ 53 + 1 :: rat\<bar> * 2 ^ min_exponent = of_int (n * 2 ^ min_exponent)"
    by (simp add: n_def)
  ultimately have u: "round_units (\<bar>2 ^ 53 + 1\<bar> * 2 ^ min_exponent) = 2 ^ 53 * 2 ^ min_exponent"
    by simp
  have "(2::rat) ^ 53 < 2 ^ max_exponent"
    unfolding max_exponent_def by (rule power_strict_increasing) simp_all
  then have "to_double (2 ^ 53 + 1) = Finite (2 ^ 53)"
    unfolding to_double_unfold u by (simp add: not_le)
  then show ?thesis by simp
qed

lemma js_add_overflows: "js_add (Finite (2 ^ 1023)) (Finite (2 ^ 1023)) = PosInfinity"
proof -
  have "(2::rat) ^ 1023 + 2 ^ 1023 = 2 ^ max_exponent"
    unfolding max_exponent_def by (simp add: power_Suc [symmetric] del: power_Suc)
  then show ?thesis using to_double_overflow by (simp del: power_Suc)
qed

section \<open>Conversion rate and average health score\<close>

lemma and_then_Inr:
  "and_then r f = Inr y \<longleftrightarrow> (\<exists>v. r = Inr v \<and> f v = Inr y)"
  by (cases r) (simp_all add: and_then_def)

lemma getDashboardStats_InrD:
  assumes "getDashboardStats eng s = Inr r"
  shows "totalDeals r = length (deals s)"
    and "totalCustomers r = length (customers s)"
    and "wonDeals r = length (filter (has_status ''won'') (deals s))"
    and "lostDeals r = length (filter (has_status ''lost'') (deals s))"
    and "conversionRate r =
      (if length (deals s) > 0
       then js_mul (js_div (num (wonDeals r)) (js_add (num (wonDeals r)) (num (lostDeals r))))
              (Finite 100)
       else Finite 0)"
    and "\<exists>healthSum.
      reduce_plus eng (\<lambda>c. js_or (field c ''healthScore'') (Num (Finite 0))) (customers s)
        (Num (Finite 0)) = Inr healthSum \<and>
      avgHealthScore r = Math_round (js_div (to_number eng healthSum) (num (length (customers s))))"
    and "top_customers eng s = Inr (topCustomers r)"
  using assms
  by (auto simp: getDashboardStats_def Let_def and_then_Inr)

text \<open>What the conversion rate is: zero in a store without deals, \<open>NaN\<close> when there are
  deals and none is won or lost.\<close>

lemma conversionRate_cases:
  assumes "getDashboardStats eng s = Inr r"
  shows "deals s = [] \<Longrightarrow> conversionRate r = Finite 0"
    and "deals s \<noteq> [] \<Longrightarrow> wonDeals r + lostDeals r = 0 \<Longrightarrow> conversionRate r = NaN"
  using getDashboardStats_InrD(5) [OF assms]
  by (auto simp: num_def)

text \<open>In the first version of the service the guard tests the very number it divides by,
  and the rate is never \<open>NaN\<close>.\<close>

lemma to_double_not_NaN: "to_double x \<noteq> NaN"
  by (simp add: to_double_unfold)

lemma basic_conversionRate_not_NaN:
  assumes "getDashboardStats_basic eng s = Inr r"
  shows "basic_conversionRate r \<noteq> NaN"
proof -
  define w where "w = length (filter (\<lambda>deal. strict_eq (field deal ''stage'') (Str ''closed-won''))
    (deals s))"
  from assms have rate: "basic_conversionRate r =
      (if length (deals s) > 0 then js_mul (js_div (num w) (num (length (deals s)))) (Finite 100)
       else Finite 0)"
    by (auto simp: getDashboardStats_basic_def Let_def and_then_Inr w_def)
  show ?thesis
  proof (cases "deals s = []")
    case True
    with rate show ?thesis by simp
  next
    case False
    then obtain q where "js_div (num w) (num (length (deals s))) = to_double q"
      by (simp add: num_def)
    then show ?thesis
      using rate False to_double_not_NaN
      by (cases "to_double q") (auto simp: to_double_not_NaN)
  qed
qed

lemma demo_stats_simps:
  "has_status st r = strict_eq (field r ''status'') (Str st)"
  "js_or a b = (if truthy a then a else b)"
  "num n = Finite (of_nat n)"
  "and_then (Inr v) f = f v"
  "js_plus eng (Num x) (Num y) = Inr (Num (js_add x y))"
  by (simp_all add: has_status_def js_or_def num_def and_then_def js_plus_def)

text \<open>
  C1. The conversion rate is guarded by \<open>totalDeals > 0\<close>, not by the denominator
  \<open>wonDeals + lostDeals\<close>. In the small store with deal 2 (status \<open>active\<close>) as its only
  deal there is a deal, no deal is won or lost, and the conversion rate returned is
  \<open>NaN\<close>, where the specification asks for zero.
\<close>

theorem conversionRate_no_won_no_lost:
  "map_sum id (\<lambda>r. (totalDeals r, wonDeals r, lostDeals r, conversionRate r))
     (getDashboardStats eng (demo_store\<lparr>deals := [deal2]\<rparr>)) = Inr (1, 0, 0, NaN)"
  by (simp add: getDashboardStats_def top_customers_def with_dealValue_def dealValue_def
        customerDeals_def demo_stats_simps demo_defs field_def Let_def)

text \<open>
  C2. The sum of the health scores is divided by the number of customers without a
  guard. In the small store with its customers removed the sum is \<open>0\<close>, the quotient
  \<open>0 / 0\<close> is \<open>NaN\<close> and so is its rounding, where the specification asks for zero.
\<close>

theorem avgHealthScore_no_customers:
  "map_sum id (\<lambda>r. (totalCustomers r, avgHealthScore r))
     (getDashboardStats eng (demo_store\<lparr>customers := []\<rparr>)) = Inr (0, NaN)"
  by (simp add: getDashboardStats_def top_customers_def with_dealValue_def dealValue_def
        customerDeals_def demo_stats_simps demo_defs field_def Let_def)

text \<open>As soon as the store has no customer the average is \<open>NaN\<close>, whatever else it holds.\<close>

lemma avgHealthScore_empty:
  assumes "getDashboardStats eng s = Inr r" and "customers s = []"
  shows "avgHealthScore r = NaN"
  using getDashboardStats_InrD(6) [OF assms(1)] assms(2)
  by (auto simp: num_def)

section \<open>Results of the arithmetic are on the grid of doubles\<close>

lemma on_grid_Finite: "on_grid (Finite q) \<longleftrightarrow> (\<exists>k::int. q = of_int k / 2 ^ min_exponent)"
proof -
  have "q = of_int k / 2 ^ min_exponent \<longleftrightarrow> q * 2 ^ min_exponent = of_int k" for k :: int
    by (simp add: eq_divide_eq)
  then show ?thesis by (simp add: on_grid_def)
qed

lemma on_grid_to_double: "on_grid (to_double x)"
proof (cases "to_double x")
  case (Finite q)
  then show ?thesis using to_double_grid [OF Finite] by (simp add: on_grid_Finite)
qed (simp_all add: on_grid_def)

lemma on_grid_js_add: "on_grid (js_add a b)"
  by (cases a; cases b) (simp_all add: on_grid_to_double, simp_all add: on_grid_def)

lemma on_grid_round_number: "on_grid (round_number a)"
  by (cases a) (simp_all add: on_grid_to_double, simp_all add: on_grid_def)

lemma on_grid_zero: "on_grid (Finite 0)"
  by (simp add: on_grid_def)

lemma js_plus_on_grid:
  assumes "js_plus eng l r = Inr v"
  shows "on_grid (to_number eng v)"
  using assms
  by (auto simp: js_plus_def on_grid_js_add on_grid_round_number split: sum.splits if_splits)

lemma reduce_plus_on_grid:
  assumes "reduce_plus eng f xs acc = Inr v" and "on_grid (to_number eng acc)"
  shows "on_grid (to_number eng v)"
  using assms
proof (induction xs arbitrary: acc)
  case Nil
  then show ?case by simp
next
  case (Cons x xs)
  from Cons.prems(1) obtain acc' where step: "js_plus eng acc (f x) = Inr acc'"
    and rest: "reduce_plus eng f xs acc' = Inr v"
    by (auto split: sum.splits)
  from Cons.IH [OF rest js_plus_on_grid [OF step]] show ?case .
qed

text \<open>On doubles greater than zero the comparator \<open>b - a\<close> is positive exactly when
  \<open>b > a\<close>: the difference of two different doubles is at least one unit and does not
  round to zero.\<close>

lemma sub_positive_iff:
  assumes "on_grid a" and "on_grid b"
    and "js_gt a (Finite 0)" and "js_gt b (Finite 0)"
  shows "js_gt (js_sub b a) (Finite 0) \<longleftrightarrow> js_gt b a"
proof -
  from assms(3,4) consider "a = PosInfinity" | "b = PosInfinity" "a \<noteq> PosInfinity"
    | qa qb where "a = Finite qa" "b = Finite qb"
    by (cases a; cases b) simp_all
  then show ?thesis
  proof cases
    case 1
    with assms(4) show ?thesis by (cases b) (simp_all add: js_sub_def)
  next
    case 2
    with assms(3) show ?thesis by (cases a) (simp_all add: js_sub_def)
  next
    case 3
    from assms(1) 3 obtain ka :: int where ka: "qa = of_int ka / 2 ^ min_exponent"
      by (auto simp: on_grid_Finite)
    from assms(2) 3 obtain kb :: int where kb: "qb = of_int kb / 2 ^ min_exponent"
      by (auto simp: on_grid_Finite)
    have diff: "qb + - qa = of_int (kb - ka) / 2 ^ min_exponent"
      by (simp add: ka kb diff_divide_distrib)
    have "js_sub b a = to_double (qb + - qa)"
      by (simp add: js_sub_def 3)
    then have sub: "js_sub b a = to_double (of_int (kb - ka) / 2 ^ min_exponent)"
      by (simp only: diff)
    have gt: "js_gt b a \<longleftrightarrow> ka < kb"
      by (simp add: 3 ka kb divide_less_cancel)
    show ?thesis
    proof (cases "ka < kb")
      case True
      then have "js_gt (js_sub b a) (Finite 0)"
        unfolding sub by (intro to_double_grid_pos) simp
      with True gt show ?thesis by simp
    next
      case False
      then have "(of_int (kb - ka) :: rat) / 2 ^ min_exponent \<le> 0"
        by (simp add: divide_le_0_iff)
      then have "\<not> js_gt (js_sub b a) (Finite 0)"
        unfolding sub by (rule to_double_nonpos)
      with False gt show ?thesis by simp
    qed
  qed
qed

lemma js_ge_trans: "js_ge a b \<Longrightarrow> js_ge b c \<Longrightarrow> js_ge a c"
  by (cases a; cases b; cases c) auto

lemma not_gt_imp_ge:
  "js_gt a (Finite 0) \<Longrightarrow> js_gt b (Finite 0) \<Longrightarrow> \<not> js_gt b a \<Longrightarrow> js_ge a b"
  by (cases a; cases b) auto

lemma gt_imp_ge: "js_gt b a \<Longrightarrow> js_ge b a"
  by (cases a; cases b) auto

section \<open>Sorting by dealValue\<close>

lemma set_insert_sorted: "set (insert_sorted cmp x ys) = insert x (set ys)"
  by (induction ys) auto

lemma set_js_sort: "set (js_sort cmp xs) = set xs"
  by (induction xs) (simp_all add: js_sort_def set_insert_sorted)

lemma length_insert_sorted: "length (insert_sorted cmp x ys) = Suc (length ys)"
  by (induction ys) auto

lemma length_js_sort: "length (js_sort cmp xs) = length xs"
  by (induction xs) (simp_all add: js_sort_def length_insert_sorted)

lemma sorted_insert_sorted:
  assumes "kept eng x"
    and "\<forall>y \<in> set ys. kept eng y"
    and "sorted_wrt (\<lambda>a b. js_ge (dealValue_number eng a) (dealValue_number eng b)) ys"
  shows "sorted_wrt (\<lambda>a b. js_ge (dealValue_number eng a) (dealValue_number eng b))
           (insert_sorted (by_dealValue_desc eng) x ys)"
  using assms
proof (induction ys)
  case Nil
  then show ?case by simp
next
  case (Cons y ys)
  have iff: "js_gt (by_dealValue_desc eng x y) (Finite 0) \<longleftrightarrow>
      js_gt (dealValue_number eng y) (dealValue_number eng x)"
    using Cons.prems(1,2) by (simp add: by_dealValue_desc_def kept_def sub_positive_iff)
  show ?case
  proof (cases "js_gt (by_dealValue_desc eng x y) (Finite 0)")
    case True
    then have yx: "js_ge (dealValue_number eng y) (dealValue_number eng x)"
      using iff by (simp add: gt_imp_ge)
    have "sorted_wrt (\<lambda>a b. js_ge (dealValue_number eng a) (dealValue_number eng b))
        (insert_sorted (by_dealValue_desc eng) x ys)"
      using Cons by simp
    moreover have "\<forall>z \<in> set (insert_sorted (by_dealValue_desc eng) x ys).
        js_ge (dealValue_number eng y) (dealValue_number eng z)"
      using yx Cons.prems(3) by (simp add: set_insert_sorted)
    ultimately show ?thesis using True by simp
  next
    case False
    then have xy: "js_ge (dealValue_number eng x) (dealValue_number eng y)"
      using iff Cons.prems(1,2) by (simp add: kept_def not_gt_imp_ge)
    have "\<forall>z \<in> set ys. js_ge (dealValue_number eng x) (dealValue_number eng z)"
      using xy Cons.prems(3) by (auto intro: js_ge_trans)
    with xy Cons.prems(3) False show ?thesis by simp
  qed
qed

lemma sorted_js_sort:
  assumes "\<forall>y \<in> set xs. kept eng y"
  shows "sorted_wrt (\<lambda>a b. js_ge (dealValue_number eng a) (dealValue_number eng b))
           (js_sort (by_dealValue_desc eng) xs)"
  using assms
proof (induction xs)
  case Nil
  then show ?case by (simp add: js_sort_def)
next
  case (Cons x xs)
  have "js_sort (by_dealValue_desc eng) (x # xs) =
      insert_sorted (by_dealValue_desc eng) x (js_sort (by_dealValue_desc eng) xs)"
    by (simp add: js_sort_def)
  with Cons show ?case
    by (simp add: sorted_insert_sorted set_js_sort)
qed

section \<open>The list of top customers\<close>

lemma map_throwing_result:
  assumes "map_throwing f xs = Inr ys"
  shows "\<forall>y \<in> set ys. \<exists>x \<in> set xs. f x = Inr y"
    and "\<forall>x \<in> set xs. \<exists>y \<in> set ys. f x = Inr y"
  using assms
proof (induction xs arbitrary: ys)
  case Nil
  {
    case 1 then show ?case by simp
  next
    case 2 then show ?case by simp
  }
next
  case (Cons x xs)
  {
    case 1
    then obtain y ys' where y: "f x = Inr y" "map_throwing f xs = Inr ys'" "ys = y # ys'"
      by (auto split: sum.splits)
    from Cons.IH(1) [OF y(2)] y(1,3) show ?case by fastforce
  next
    case 2
    then obtain y ys' where y: "f x = Inr y" "map_throwing f xs = Inr ys'" "ys = y # ys'"
      by (auto split: sum.splits)
    from Cons.IH(2) [OF y(2)] y(1,3) show ?case by fastforce
  }
qed

text \<open>A reduce over numbers adds them up with the addition of doubles; over non-negative
  integers whose sum is below \<open>2\<^sup>5\<^sup>3\<close> every addition is exact and the result is the
  sum.\<close>

lemma reduce_plus_numbers:
  "map f xs = map Num vals \<Longrightarrow> reduce_plus eng f xs (Num a) = Inr (Num (foldl js_add a vals))"
proof (induction xs arbitrary: vals a)
  case Nil
  then show ?case by simp
next
  case (Cons x xs)
  then obtain v vals' where v: "vals = v # vals'" "f x = Num v" "map f xs = map Num vals'"
    by (cases vals) auto
  from Cons.IH [OF v(3), of "js_add a v"] v(1,2) show ?case
    by (simp add: js_plus_def)
qed

lemma reduce_plus_integers:
  assumes "map f xs = map (\<lambda>n. Num (Finite (of_int n))) ns"
    and "\<forall>n \<in> set ns. 0 \<le> n" and "0 \<le> a" and "a + sum_list ns < 2 ^ 53"
  shows "reduce_plus eng f xs (Num (Finite (of_int a))) = Inr (Num (Finite (of_int (a + sum_list ns))))"
  using assms
proof (induction xs arbitrary: ns a)
  case Nil
  then show ?case by simp
next
  case (Cons x xs)
  then obtain n ns' where n: "ns = n # ns'" "f x = Num (Finite (of_int n))"
    "map f xs = map (\<lambda>n. Num (Finite (of_int n))) ns'"
    by (cases ns) auto
  have rest: "0 \<le> sum_list ns'" using Cons.prems(2) n(1) by (intro sum_list_nonneg) simp
  have n0: "0 \<le> n" using Cons.prems(2) n(1) by simp
  have small: "\<bar>a + n\<bar> < 2 ^ 53" using Cons.prems(3,4) n(1) rest n0 by simp
  have step: "js_plus eng (Num (Finite (of_int a))) (f x) = Inr (Num (Finite (of_int (a + n))))"
    using js_add_integers [OF small] by (simp add: js_plus_def n(2))
  have "reduce_plus eng f xs (Num (Finite (of_int (a + n)))) =
      Inr (Num (Finite (of_int (a + n + sum_list ns'))))"
    using Cons.prems(2-4) n(1) n0 by (intro Cons.IH [OF n(3)]) (simp_all add: add.assoc)
  with step show ?case by (simp add: n(1) add.assoc)
qed

lemma top_customers_InrD:
  assumes "top_customers eng s = Inr tops"
  shows "length tops \<le> 5"
    and "\<forall>e \<in> set tops. \<exists>c \<in> set (customers s). \<exists>v.
      e = c(''dealValue'' \<mapsto> v) \<and> dealValue eng (deals s) c = Inr v \<and>
      js_gt (to_number eng v) (Finite 0)"
    and "sorted_wrt (\<lambda>a b. js_ge (dealValue_number eng a) (dealValue_number eng b)) tops"
    and "\<forall>c \<in> set (customers s). \<forall>v.
      dealValue eng (deals s) c = Inr v \<and> js_gt (to_number eng v) (Finite 0) \<longrightarrow>
      c(''dealValue'' \<mapsto> v) \<in> set tops \<or>
      (length tops = 5 \<and> (\<forall>e \<in> set tops. js_ge (dealValue_number eng e) (to_number eng v)))"
proof -
  from assms obtain entries
    where entries: "map_throwing (with_dealValue eng (deals s)) (customers s) = Inr entries"
      and tops: "tops = take 5 (js_sort (by_dealValue_desc eng)
        (filter (\<lambda>c. js_gt (dealValue_number eng c) (Finite 0)) entries))"
    by (auto simp: top_customers_def split: sum.splits)
  define pos where "pos = filter (\<lambda>c. js_gt (dealValue_number eng c) (Finite 0)) entries"
  define sorted where "sorted = js_sort (by_dealValue_desc eng) pos"
  have tops': "tops = take 5 sorted" by (simp add: tops sorted_def pos_def)
  have entry: "\<exists>c \<in> set (customers s). \<exists>v. e = c(''dealValue'' \<mapsto> v) \<and>
      dealValue eng (deals s) c = Inr v" if "e \<in> set entries" for e
    using map_throwing_result(1) [OF entries] that
    by (fastforce simp: with_dealValue_def split: sum.splits)
  have number: "dealValue_number eng (c(''dealValue'' \<mapsto> v)) = to_number eng v" for c v
    by (simp add: dealValue_number_def field_def)
  have grid: "on_grid (dealValue_number eng e)" if "e \<in> set entries" for e
  proof -
    from entry [OF that] obtain c v where e: "e = c(''dealValue'' \<mapsto> v)"
      and v: "dealValue eng (deals s) c = Inr v" by blast
    from v have "on_grid (to_number eng v)"
      unfolding dealValue_def by (rule reduce_plus_on_grid) (simp add: on_grid_zero)
    then show ?thesis by (simp add: e number)
  qed
  have kept: "\<forall>e \<in> set pos. kept eng e"
    using grid by (simp add: pos_def kept_def)
  have srt: "sorted_wrt (\<lambda>a b. js_ge (dealValue_number eng a) (dealValue_number eng b)) sorted"
    unfolding sorted_def using kept by (rule sorted_js_sort)
  have set_sorted: "set sorted = set pos" by (simp add: sorted_def set_js_sort)
  show "length tops \<le> 5" by (simp add: tops')
  show "\<forall>e \<in> set tops. \<exists>c \<in> set (customers s). \<exists>v.
      e = c(''dealValue'' \<mapsto> v) \<and> dealValue eng (deals s) c = Inr v \<and>
      js_gt (to_number eng v) (Finite 0)"
  proof
    fix e assume "e \<in> set tops"
    then have "e \<in> set sorted" unfolding tops' by (rule in_set_takeD)
    then have mem: "e \<in> set entries" and gt: "js_gt (dealValue_number eng e) (Finite 0)"
      by (simp_all add: set_sorted pos_def)
    from entry [OF mem] obtain c v where c: "c \<in> set (customers s)"
      and e: "e = c(''dealValue'' \<mapsto> v)" and v: "dealValue eng (deals s) c = Inr v" by blast
    from gt have "js_gt (to_number eng v) (Finite 0)" by (simp add: e number)
    with c e v show "\<exists>c \<in> set (customers s). \<exists>v.
      e = c(''dealValue'' \<mapsto> v) \<and> dealValue eng (deals s) c = Inr v \<and>
      js_gt (to_number eng v) (Finite 0)" by blast
  qed
  show "sorted_wrt (\<lambda>a b. js_ge (dealValue_number eng a) (dealValue_number eng b)) tops"
    unfolding tops' using srt by (rule sorted_wrt_take)
  show "\<forall>c \<in> set (customers s). \<forall>v.
      dealValue eng (deals s) c = Inr v \<and> js_gt (to_number eng v) (Finite 0) \<longrightarrow>
      c(''dealValue'' \<mapsto> v) \<in> set tops \<or>
      (length tops = 5 \<and> (\<forall>e \<in> set tops. js_ge (dealValue_number eng e) (to_number eng v)))"
  proof (intro ballI allI impI, elim conjE)
    fix c v
    assume c: "c \<in> set (customers s)" and v: "dealValue eng (deals s) c = Inr v"
      and gt: "js_gt (to_number eng v) (Finite 0)"
    let ?e = "c(''dealValue'' \<mapsto> v)"
    from map_throwing_result(2) [OF entries] c v have "?e \<in> set entries"
      by (fastforce simp: with_dealValue_def)
    with gt have "?e \<in> set sorted" by (simp add: set_sorted pos_def number)
    then have "?e \<in> set (take 5 sorted @ drop 5 sorted)" by simp
    then consider "?e \<in> set (take 5 sorted)" | "?e \<in> set (drop 5 sorted)"
      by (auto simp del: append_take_drop_id)
    then show "?e \<in> set tops \<or>
      (length tops = 5 \<and> (\<forall>e \<in> set tops. js_ge (dealValue_number eng e) (to_number eng v)))"
    proof cases
      case 1
      then show ?thesis by (simp add: tops')
    next
      case 2
      then have "drop 5 sorted \<noteq> []" by auto
      then have len: "length tops = 5" by (simp add: tops')
      have "sorted_wrt (\<lambda>a b. js_ge (dealValue_number eng a) (dealValue_number eng b))
          (take 5 sorted @ drop 5 sorted)"
        using srt by simp
      then have "\<forall>x \<in> set (take 5 sorted). \<forall>y \<in> set (drop 5 sorted).
          js_ge (dealValue_number eng x) (dealValue_number eng y)"
        by (simp only: sorted_wrt_append) blast
      with 2 have "\<forall>x \<in> set (take 5 sorted).
          js_ge (dealValue_number eng x) (dealValue_number eng ?e)"
        by blast
      then have "\<forall>x \<in> set tops. js_ge (dealValue_number eng x) (to_number eng v)"
        by (simp only: tops' number)
      with len show ?thesis by blast
    qed
  qed
qed

section \<open>When the statistics are returned\<close>

text \<open>
  The only step of \<open>getDashboardStats\<close> that can throw is a \<open>+\<close> on an object whose own
  \<open>toString\<close> takes the place of the inherited one. On every other store the call
  returns.
\<close>

lemma js_plus_returns:
  assumes "to_primitive l = Inr lp" and "to_primitive r = Inr rp"
  shows "\<exists>v. js_plus eng l r = Inr v \<and> to_primitive v = Inr v"
  using assms by (simp add: js_plus_def)

lemma reduce_plus_returns:
  assumes "\<forall>x \<in> set xs. \<exists>p. to_primitive (f x) = Inr p" and "\<exists>p. to_primitive acc = Inr p"
  shows "\<exists>v. reduce_plus eng f xs acc = Inr v"
  using assms
proof (induction xs arbitrary: acc)
  case Nil
  then show ?case by simp
next
  case (Cons x xs)
  from Cons.prems obtain p q where "to_primitive acc = Inr p" "to_primitive (f x) = Inr q"
    by auto
  from js_plus_returns [OF this] obtain v where
    v: "js_plus eng acc (f x) = Inr v" "to_primitive v = Inr v" by blast
  from Cons.prems(1) have "\<forall>y \<in> set xs. \<exists>p. to_primitive (f y) = Inr p" by simp
  from Cons.IH [OF this, of v] v(2) obtain w where "reduce_plus eng f xs v = Inr w" by auto
  with v(1) show ?case by simp
qed

lemma map_throwing_returns:
  assumes "\<forall>x \<in> set xs. \<exists>y. f x = Inr y"
  shows "\<exists>ys. map_throwing f xs = Inr ys"
  using assms
proof (induction xs)
  case Nil
  then show ?case by simp
next
  case (Cons x xs)
  then obtain y ys where "f x = Inr y" "map_throwing f xs = Inr ys" by auto
  then show ?case by simp
qed

lemma to_primitive_js_or:
  assumes "to_primitive v = Inr p"
  shows "\<exists>q. to_primitive (js_or v (Num (Finite 0))) = Inr q"
  using assms by (simp add: js_or_def)

lemma getDashboardStats_returns:
  assumes "\<forall>d \<in> set (deals s). \<exists>p. to_primitive (field d ''value'') = Inr p"
    and "\<forall>c \<in> set (customers s). \<exists>p. to_primitive (field c ''revenue'') = Inr p"
    and "\<forall>c \<in> set (customers s). \<exists>p. to_primitive (field c ''healthScore'') = Inr p"
  shows "\<exists>r. getDashboardStats eng s = Inr r"
proof -
  have z: "\<exists>p. to_primitive (Num (Finite 0)) = Inr p" by simp
  have "\<forall>d \<in> set (filter (has_status ''active'') (deals s)).
          \<exists>p. to_primitive (field d ''value'') = Inr p"
    using assms(1) by simp
  from reduce_plus_returns [OF this z] obtain v1 where
    v1: "reduce_plus eng (\<lambda>deal. field deal ''value'')
           (filter (has_status ''active'') (deals s)) (Num (Finite 0)) = Inr v1" by blast
  have "\<forall>d \<in> set (filter (has_status ''won'') (deals s)).
          \<exists>p. to_primitive (field d ''value'') = Inr p"
    using assms(1) by simp
  from reduce_plus_returns [OF this z] obtain v2 where
    v2: "reduce_plus eng (\<lambda>deal. field deal ''value'')
           (filter (has_status ''won'') (deals s)) (Num (Finite 0)) = Inr v2" by blast
  have "\<forall>c \<in> set (customers s).
          \<exists>p. to_primitive (js_or (field c ''revenue'') (Num (Finite 0))) = Inr p"
    using assms(2) to_primitive_js_or by blast
  from reduce_plus_returns [OF this z] obtain v3 where
    v3: "reduce_plus eng (\<lambda>c. js_or (field c ''revenue'') (Num (Finite 0)))
           (customers s) (Num (Finite 0)) = Inr v3" by blast
  have "\<forall>c \<in> set (customers s).
          \<exists>p. to_primitive (js_or (field c ''healthScore'') (Num (Finite 0))) = Inr p"
    using assms(3) to_primitive_js_or by blast
  from reduce_plus_returns [OF this z] obtain v4 where
    v4: "reduce_plus eng (\<lambda>c. js_or (field c ''healthScore'') (Num (Finite 0)))
           (customers s) (Num (Finite 0)) = Inr v4" by blast
  have "\<forall>c \<in> set (customers s). \<exists>y. with_dealValue eng (deals s) c = Inr y"
  proof
    fix c assume "c \<in> set (customers s)"
    have "\<forall>d \<in> set (customerDeals (deals s) c). \<exists>p. to_primitive (field d ''value'') = Inr p"
      using assms(1) by (simp add: customerDeals_def)
    from reduce_plus_returns [OF this z] obtain v where
      "reduce_plus eng (\<lambda>d. field d ''value'') (customerDeals (deals s) c) (Num (Finite 0)) = Inr v"
      by blast
    then show "\<exists>y. with_dealValue eng (deals s) c = Inr y"
      by (simp add: with_dealValue_def dealValue_def)
  qed
  from map_throwing_returns [OF this] obtain es where
    "map_throwing (with_dealValue eng (deals s)) (customers s) = Inr es" by blast
  then have v5: "\<exists>t. top_customers eng s = Inr t"
    by (simp add: top_customers_def)
  then obtain t where t: "top_customers eng s = Inr t" by blast
  show ?thesis
    by (simp add: getDashboardStats_def Let_def and_then_def v1 v2 v3 v4 t)
qed

lemma dealValue_explicit:
  "dealValue eng ds c =
     reduce_plus eng (\<lambda>d. field d ''value'')
       (filter (\<lambda>d. strict_eq (field d ''customerId'') (field c ''id'') \<and>
                    strict_eq (field d ''status'') (Str ''won'')) ds)
       (Num (Finite 0))"
  by (simp add: dealValue_def customerDeals_def has_status_def)

text \<open>
  C6. When the statistics are returned, the list of top customers has at most five
  entries. Each entry is a customer of the store with the property \<open>dealValue\<close> added, and
  this dealValue is what the reduce with \<open>+\<close> from \<open>0\<close> makes of the values of the deals,
  in the order of the store, whose customerId is the customer's id and whose status is
  \<open>won\<close>: for values that are numbers the sum by the addition of doubles, and for
  non-negative integers with a sum below \<open>2\<^sup>5\<^sup>3\<close> the sum itself. The dealValue of an entry
  is greater than zero, and the dealValues of the list are in descending order. No
  customer is left out wrongly: a customer with a dealValue greater than zero is in the
  list, or the list has five entries and each of them has a dealValue at least as great.
\<close>

theorem topCustomers_sorted_positive:
  assumes "getDashboardStats eng s = Inr r"
  shows "length (topCustomers r) \<le> 5 \<and>
    (\<forall>e \<in> set (topCustomers r). \<exists>c \<in> set (customers s). \<exists>v.
       (let won = filter (\<lambda>d. strict_eq (field d ''customerId'') (field c ''id'') \<and>
                              strict_eq (field d ''status'') (Str ''won'')) (deals s)
        in e = c(''dealValue'' \<mapsto> v) \<and>
           reduce_plus eng (\<lambda>d. field d ''value'') won (Num (Finite 0)) = Inr v \<and>
           (\<forall>vals. map (\<lambda>d. field d ''value'') won = map Num vals \<longrightarrow>
              v = Num (foldl js_add (Finite 0) vals)) \<and>
           (\<forall>ns. map (\<lambda>d. field d ''value'') won = map (\<lambda>n. Num (Finite (of_int n))) ns \<and>
              (\<forall>n \<in> set ns. 0 \<le> n) \<and> sum_list ns < 2 ^ 53 \<longrightarrow>
              v = Num (Finite (of_int (sum_list ns)))) \<and>
           js_gt (to_number eng v) (Finite 0))) \<and>
    sorted_wrt js_ge (map (\<lambda>e. to_number eng (field e ''dealValue'')) (topCustomers r)) \<and>
    (\<forall>c \<in> set (customers s). \<forall>v.
       reduce_plus eng (\<lambda>d. field d ''value'')
         (filter (\<lambda>d. strict_eq (field d ''customerId'') (field c ''id'') \<and>
                      strict_eq (field d ''status'') (Str ''won'')) (deals s))
         (Num (Finite 0)) = Inr v \<and>
       js_gt (to_number eng v) (Finite 0) \<longrightarrow>
       c(''dealValue'' \<mapsto> v) \<in> set (topCustomers r) \<or>
       (length (topCustomers r) = 5 \<and>
        (\<forall>e \<in> set (topCustomers r).
           js_ge (to_number eng (field e ''dealValue'')) (to_number eng v))))"
proof -
  have tops: "top_customers eng s = Inr (topCustomers r)"
    using assms by (rule getDashboardStats_InrD(7))
  note t = top_customers_InrD [OF tops]
  have "\<forall>e \<in> set (topCustomers r). \<exists>c \<in> set (customers s). \<exists>v.
       (let won = filter (\<lambda>d. strict_eq (field d ''customerId'') (field c ''id'') \<and>
                              strict_eq (field d ''status'') (Str ''won'')) (deals s)
        in e = c(''dealValue'' \<mapsto> v) \<and>
           reduce_plus eng (\<lambda>d. field d ''value'') won (Num (Finite 0)) = Inr v \<and>
           (\<forall>vals. map (\<lambda>d. field d ''value'') won = map Num vals \<longrightarrow>
              v = Num (foldl js_add (Finite 0) vals)) \<and>
           (\<forall>ns. map (\<lambda>d. field d ''value'') won = map (\<lambda>n. Num (Finite (of_int n))) ns \<and>
              (\<forall>n \<in> set ns. 0 \<le> n) \<and> sum_list ns < 2 ^ 53 \<longrightarrow>
              v = Num (Finite (of_int (sum_list ns)))) \<and>
           js_gt (to_number eng v) (Finite 0))"
  proof
    fix e assume "e \<in> set (topCustomers r)"
    with t(2) obtain c v where c: "c \<in> set (customers s)" and e: "e = c(''dealValue'' \<mapsto> v)"
      and v: "dealValue eng (deals s) c = Inr v" and gt: "js_gt (to_number eng v) (Finite 0)"
      by blast
    define won where "won = filter (\<lambda>d. strict_eq (field d ''customerId'') (field c ''id'') \<and>
                              strict_eq (field d ''status'') (Str ''won'')) (deals s)"
    have red: "reduce_plus eng (\<lambda>d. field d ''value'') won (Num (Finite 0)) = Inr v"
      using v by (simp add: dealValue_explicit won_def)
    have numbers: "v = Num (foldl js_add (Finite 0) vals)"
      if "map (\<lambda>d. field d ''value'') won = map Num vals" for vals
      using reduce_plus_numbers [OF that, of eng "Finite 0"] red by simp
    have integers: "v = Num (Finite (of_int (sum_list ns)))"
      if "map (\<lambda>d. field d ''value'') won = map (\<lambda>n. Num (Finite (of_int n))) ns"
        and "\<forall>n \<in> set ns. 0 \<le> n" and "sum_list ns < 2 ^ 53" for ns
      using reduce_plus_integers [OF that(1,2), of 0 eng] that(3) red by simp
    from e red numbers integers gt
    have "e = c(''dealValue'' \<mapsto> v) \<and>
           reduce_plus eng (\<lambda>d. field d ''value'') won (Num (Finite 0)) = Inr v \<and>
           (\<forall>vals. map (\<lambda>d. field d ''value'') won = map Num vals \<longrightarrow>
              v = Num (foldl js_add (Finite 0) vals)) \<and>
           (\<forall>ns. map (\<lambda>d. field d ''value'') won = map (\<lambda>n. Num (Finite (of_int n))) ns \<and>
              (\<forall>n \<in> set ns. 0 \<le> n) \<and> sum_list ns < 2 ^ 53 \<longrightarrow>
              v = Num (Finite (of_int (sum_list ns)))) \<and>
           js_gt (to_number eng v) (Finite 0)"
      by blast
    with c show "\<exists>c \<in> set (customers s). \<exists>v.
       (let won = filter (\<lambda>d. strict_eq (field d ''customerId'') (field c ''id'') \<and>
                              strict_eq (field d ''status'') (Str ''won'')) (deals s)
        in e = c(''dealValue'' \<mapsto> v) \<and>
           reduce_plus eng (\<lambda>d. field d ''value'') won (Num (Finite 0)) = Inr v \<and>
           (\<forall>vals. map (\<lambda>d. field d ''value'') won = map Num vals \<longrightarrow>
              v = Num (foldl js_add (Finite 0) vals)) \<and>
           (\<forall>ns. map (\<lambda>d. field d ''value'') won = map (\<lambda>n. Num (Finite (of_int n))) ns \<and>
              (\<forall>n \<in> set ns. 0 \<le> n) \<and> sum_list ns < 2 ^ 53 \<longrightarrow>
              v = Num (Finite (of_int (sum_list ns)))) \<and>
           js_gt (to_number eng v) (Finite 0))"
      unfolding Let_def won_def by blast
  qed
  moreover have "sorted_wrt js_ge (map (\<lambda>e. to_number eng (field e ''dealValue'')) (topCustomers r))"
    using t(3) by (simp add: sorted_wrt_map dealValue_number_def)
  moreover have "\<forall>c \<in> set (customers s). \<forall>v.
       reduce_plus eng (\<lambda>d. field d ''value'')
         (filter (\<lambda>d. strict_eq (field d ''customerId'') (field c ''id'') \<and>
                      strict_eq (field d ''status'') (Str ''won'')) (deals s))
         (Num (Finite 0)) = Inr v \<and>
       js_gt (to_number eng v) (Finite 0) \<longrightarrow>
       c(''dealValue'' \<mapsto> v) \<in> set (topCustomers r) \<or>
       (length (topCustomers r) = 5 \<and>
        (\<forall>e \<in> set (topCustomers r).
           js_ge (to_number eng (field e ''dealValue'')) (to_number eng v)))"
    using t(4) by (simp only: dealValue_explicit dealValue_number_def)
  ultimately show ?thesis using t(1) by blast
qed

text \<open>In the small store Stripe has won 2500000 and Linear 180000; Notion has won nothing
  and is left out. This is so whatever the conversions of the engine are: no string is
  met.\<close>

theorem topCustomers_sorted_positive_witness:
  "\<forall>eng. \<exists>r. getDashboardStats eng demo_store = Inr r \<and>
     map (\<lambda>e. (field e ''name'', field e ''dealValue'')) (topCustomers r) =
       [(Str ''Stripe Inc.'', Num (Finite 2500000)), (Str ''Linear Software'', Num (Finite 180000))] \<and>
     length (topCustomers r) \<le> 5 \<and>
     sorted_wrt js_ge (map (\<lambda>e. to_number eng (field e ''dealValue'')) (topCustomers r))"
proof
  fix eng
  have tops: "map_sum id (\<lambda>r. map (\<lambda>e. (field e ''name'', field e ''dealValue'')) (topCustomers r))
     (getDashboardStats eng demo_store) =
     Inr [(Str ''Stripe Inc.'', Num (Finite 2500000)), (Str ''Linear Software'', Num (Finite 180000))]"
    by (simp add: getDashboardStats_def top_customers_def with_dealValue_def dealValue_def
        customerDeals_def demo_stats_simps demo_defs field_def Let_def js_sort_def
        by_dealValue_desc_def dealValue_number_def js_sub_def)
  then obtain r where r: "getDashboardStats eng demo_store = Inr r"
    by (cases "getDashboardStats eng demo_store") auto
  from topCustomers_sorted_positive [OF r] r tops
  show "\<exists>r. getDashboardStats eng demo_store = Inr r \<and>
     map (\<lambda>e. (field e ''name'', field e ''dealValue'')) (topCustomers r) =
       [(Str ''Stripe Inc.'', Num (Finite 2500000)), (Str ''Linear Software'', Num (Finite 180000))] \<and>
     length (topCustomers r) \<le> 5 \<and>
     sorted_wrt js_ge (map (\<lambda>e. to_number eng (field e ''dealValue'')) (topCustomers r))"
    by simp
qed

end
